theory Spec2Isabelle
  imports Complex_Main
begin

section \<open>Sound source localization: the estimate-generation pipeline\<close>

text \<open>
  A shallow embedding of \<^verbatim>\<open>scripts/sound_source_localization.py\<close> (class
  \<^verbatim>\<open>SoundSourceLocation\<close>). Python floats are modelled as real numbers, Python
  exceptions as the left summand of a result type, and the two external collaborators
  (the \<^verbatim>\<open>.mat\<close> file loader and the DOA solver) as function parameters.
\<close>

subsection \<open>Errors and Python values\<close>

text \<open>The exceptions the class raises, each with its message.\<close>

datatype error =
    ValueError string
  | TypeError string
  | NameError string
  | ZeroDivisionError
  | AttributeError string
  | ExternalError string

text \<open>
  The error kinds of the specification: \<^verbatim>\<open>ValueError\<close> and \<^verbatim>\<open>TypeError\<close> are its
  ValidationError, \<^verbatim>\<open>NameError\<close> is its NotFoundError.
\<close>

fun is_ValidationError :: "error \<Rightarrow> bool" where
  "is_ValidationError (ValueError m) = True"
| "is_ValidationError (TypeError m) = True"
| "is_ValidationError e = False"

text \<open>A coordinate as Python may pass it: \<^verbatim>\<open>None\<close>, a float, an int or a string.\<close>

datatype coord = CNone | CFloat real | CInt int | CStr string

text \<open>A microphone location: a list of coordinates, or \<^verbatim>\<open>None\<close> in its place.\<close>

datatype location = LNone | Loc "coord list"

text \<open>
  A row of the signal matrix: a time series, or (in an object array) \<^verbatim>\<open>None\<close> or a
  string.
\<close>

datatype row = RNone | RStr string | RSig "real list"

text \<open>The value of the \<^verbatim>\<open>recovered\<close> attribute: a bool, or anything else.\<close>

datatype pyflag = PyBool bool | PyOther

subsection \<open>\<^verbatim>\<open>str\<close> on non-negative integers\<close>

definition digit_char :: "nat \<Rightarrow> char" where
  "digit_char d = ''0123456789'' ! d"

fun str_nat :: "nat \<Rightarrow> string" where
  "str_nat n = (if n < 10 then [digit_char n] else str_nat (n div 10) @ [digit_char (n mod 10)])"

declare str_nat.simps [simp del]

subsection \<open>The object\<close>

record ssl =
  filepath :: string
  algo_name :: string
  num_sources :: int
  recovered :: pyflag
  transform :: bool
  sound_speed :: real
  combinations_number :: int
  fs :: int
  fft_size :: int
  freq_range :: "int list"
  tol :: real
  radius :: "real list"
  s1_bool :: bool

text \<open>
  \<^verbatim>\<open>np.arange(0, 0.5, tol)\<close> with \<^verbatim>\<open>tol = 1e-3\<close> has 500 entries, the
  \<open>i\<close>-th being \<open>i * tol\<close>; \<^verbatim>\<open>[:, np.newaxis]\<close> makes it a column, kept here as
  the list of its entries.
\<close>

definition init :: "string \<Rightarrow> string \<Rightarrow> int \<Rightarrow> pyflag \<Rightarrow> bool \<Rightarrow> ssl" where
  "init fp algo ns rec tr =
     \<lparr> filepath = fp, algo_name = algo, num_sources = ns, recovered = rec, transform = tr,
       sound_speed = 30, combinations_number = 3, fs = 16000, fft_size = 256,
       freq_range = [0, 250], tol = 1 / 1000,
       radius = map (\<lambda>i. real i * (1 / 1000)) [0..<500],
       s1_bool = True \<rparr>"

subsection \<open>Geometry utilities\<close>

definition create_microphone_locations_list :: "real list list" where
  "create_microphone_locations_list =
     concat (map (\<lambda>x. concat (map (\<lambda>y. map (\<lambda>z. [x, y, z])
                                          [0.056388, 0.001524, - 0.053340, - 0.108204])
                                 [- 0.109982]))
                 [- 0.102235, - 0.052197, - 0.027304])"

text \<open>
  Modelled from the spec: \<^verbatim>\<open>convert_to_one_list\<close> of \<^verbatim>\<open>scripts/utils.py\<close>, which is
  not among the sources. It flattens the groups of locations into the one list of their
  coordinates; a \<^verbatim>\<open>None\<close> standing for a location stays as \<^verbatim>\<open>None\<close>.
\<close>

fun flat_location :: "location \<Rightarrow> coord list" where
  "flat_location LNone = [CNone]"
| "flat_location (Loc cs) = cs"

definition convert_to_one_list :: "location list list \<Rightarrow> coord list" where
  "convert_to_one_list args = concat (map flat_location (concat args))"

text \<open>
  Modelled from the spec: \<^verbatim>\<open>check_list_of_lists_are_same_length\<close> of
  \<^verbatim>\<open>scripts/utils.py\<close>, which is not among the sources. It holds when all locations
  have the same number of coordinates.
\<close>

fun location_len :: "location \<Rightarrow> nat" where
  "location_len LNone = 0"
| "location_len (Loc cs) = length cs"

definition check_list_of_lists_are_same_length :: "location list list \<Rightarrow> bool" where
  "check_list_of_lists_are_same_length args =
     (case concat args of [] \<Rightarrow> True
      | l # ls \<Rightarrow> list_all (\<lambda>k. location_len k = location_len l) ls)"

fun is_float :: "coord \<Rightarrow> bool" where
  "is_float (CFloat x) = True"
| "is_float c = False"

fun float_val :: "coord \<Rightarrow> real" where
  "float_val (CFloat x) = x"
| "float_val c = 0"

fun location_vals :: "location \<Rightarrow> real list" where
  "location_vals (Loc cs) = map float_val cs"
| "location_vals LNone = []"

text \<open>\<^verbatim>\<open>np.sum(a, axis=0)\<close> of a matrix with \<open>d\<close> columns, given by its rows.\<close>

definition sum_axis0 :: "nat \<Rightarrow> real list list \<Rightarrow> real list" where
  "sum_axis0 d rows = map (\<lambda>j. sum_list (map (\<lambda>r. r ! j) rows)) [0..<d]"

text \<open>
  \<^verbatim>\<open>get_centroid(*args)\<close>. With one argument, \<^verbatim>\<open>np.array(*args)\<close> is the matrix of the
  locations and \<^verbatim>\<open>len(*args)\<close> their number. With more than one argument the second is
  taken by \<^verbatim>\<open>np.array\<close> for a dtype, which raises \<^verbatim>\<open>TypeError\<close>.
\<close>

definition get_centroid :: "location list list \<Rightarrow> error + real list" where
  "get_centroid args =
     (if convert_to_one_list args = [] then
        Inl (ValueError ''Error. Microphone location list is empty.'')
      else if CNone \<in> set (convert_to_one_list args) then
        Inl (ValueError ''Error. Microphone location list contains None.'')
      else if \<not> check_list_of_lists_are_same_length args then
        Inl (ValueError ''Error. Not all microphone locations have same length!'')
      else if \<not> list_all is_float (convert_to_one_list args) then
        Inl (TypeError ''Error. Microphone location list does not contain a float type.'')
      else
        (case args of
           [g] \<Rightarrow>
             Inr (map (\<lambda>s. s / real (length g))
                      (sum_axis0 (location_len (hd g)) (map location_vals g)))
         | _ \<Rightarrow> Inl (TypeError ''Cannot interpret the second argument as a data type'')))"

subsection \<open>Signal access layer\<close>

text \<open>
  The dictionary of \<^verbatim>\<open>get_sound_data\<close>: key \<^verbatim>\<open>S{x}_Cycle{y}\<close>, value the relative
  file path and the name of the variable in the file.
\<close>

definition cycle_key :: "nat \<Rightarrow> nat \<Rightarrow> string" where
  "cycle_key x y = ''S'' @ str_nat x @ ''_Cycle'' @ str_nat y"

definition source_name_dict :: "bool \<Rightarrow> (string \<times> string \<times> string) list" where
  "source_name_dict rec =
     concat (map (\<lambda>x. map (\<lambda>y.
        (cycle_key x y,
         (if rec then ''Recovered_S'' @ str_nat x @ ''/'' @ cycle_key x y
          else ''S'' @ str_nat x @ ''/'' @ cycle_key x y),
         ''S'' @ str_nat x)) [0..<24]) [1..<3])"

text \<open>
  \<^verbatim>\<open>get_sound_data\<close>. The parameter \<open>loadmat\<close> stands for \<^verbatim>\<open>scipy.io.loadmat\<close>: it
  fails or returns the dictionary of the file's variables; \<^verbatim>\<open>data.get\<close> gives
  \<^verbatim>\<open>None\<close> for a variable the file does not have.
\<close>

definition get_sound_data ::
  "(string \<Rightarrow> error + (string \<rightharpoonup> row list)) \<Rightarrow> ssl \<Rightarrow> string \<Rightarrow> error + row list option" where
  "get_sound_data loadmat self name_of_source =
     (case recovered self of
        PyOther \<Rightarrow> Inl (TypeError ''recovered is supposed to be a boolean.'')
      | PyBool rec \<Rightarrow>
          (case map_of (source_name_dict rec) name_of_source of
             None \<Rightarrow> Inl (NameError (name_of_source @ '' name not in cycle list''))
           | Some (path, var) \<Rightarrow>
               (case loadmat (filepath self @ path) of
                  Inl e \<Rightarrow> Inl e
                | Inr data \<Rightarrow> Inr (data var))))"

text \<open>
  \<^verbatim>\<open>data.size\<close>: the number of entries of a numeric matrix, the number of rows of an
  object array.
\<close>

fun is_sig :: "row \<Rightarrow> bool" where
  "is_sig (RSig xs) = True"
| "is_sig r = False"

fun row_len :: "row \<Rightarrow> nat" where
  "row_len (RSig xs) = length xs"
| "row_len r = 1"

definition data_size :: "row list \<Rightarrow> nat" where
  "data_size data = (if list_all is_sig data then sum_list (map row_len data) else length data)"

text \<open>
  What \<^verbatim>\<open>get_mic_match_with_sound_data\<close> returns: the pair of lists, or the message
  string of its last branch.
\<close>

datatype match_result = Matched "row list" "real list list" | Message string

definition mismatch_message :: string where
  "mismatch_message =
     ''Error. Mismatch in length of microphone location list and length of signal list.''"

text \<open>
  The dictionary from \<^verbatim>\<open>mic1\<close> .. \<^verbatim>\<open>mic12\<close> to (location, signal), as an
  association list in the order it is built.
\<close>

definition microphones_locations_and_signals_dict ::
  "(real list \<times> row) list \<Rightarrow> (string \<times> real list \<times> row) list" where
  "microphones_locations_and_signals_dict all_md =
     map (\<lambda>j. (''mic'' @ str_nat (j + 1), all_md ! j)) [0..<length all_md]"

text \<open>
  The loop over \<^verbatim>\<open>args\<close>: a name that is a key appends its location and its signal,
  any other argument is passed over. An argument is a string or \<^verbatim>\<open>None\<close>.
\<close>

fun match_loop ::
  "(string \<times> real list \<times> row) list \<Rightarrow> string option list \<Rightarrow> row list \<times> real list list" where
  "match_loop d [] = ([], [])"
| "match_loop d (arg # args) =
     (let (signal_list, mic_location) = match_loop d args in
      case arg of
        None \<Rightarrow> (signal_list, mic_location)
      | Some name \<Rightarrow>
          (case map_of d name of
             None \<Rightarrow> (signal_list, mic_location)
           | Some (loc, sig) \<Rightarrow> (sig # signal_list, loc # mic_location)))"

text \<open>
  \<^verbatim>\<open>get_mic_match_with_sound_data(data, *args)\<close>. The arguments are a flat tuple, which
  is its own flattening, so \<^verbatim>\<open>convert_to_one_list(args)\<close> is empty exactly when
  \<^verbatim>\<open>args\<close> is.
\<close>

definition get_mic_match_with_sound_data ::
  "row list \<Rightarrow> string option list \<Rightarrow> error + match_result" where
  "get_mic_match_with_sound_data data args =
     (if data = [] \<or> (data_size data = 1 \<and> RNone \<in> set data) then
        Inl (ValueError ''Error. The signal is empty.'')
      else if RNone \<in> set data then
        Inl (ValueError ''Error. The signal contains None.'')
      else if RStr [] \<in> set data then
        Inl (ValueError ''Error. The signal contains an empty string.'')
      else if args = [] then
        Inl (ValueError ''Error. Microphone list is empty.'')
      else if length create_microphone_locations_list = length data then
        (let all_microphone_locations_and_data = zip create_microphone_locations_list data;
             (signal_list, mic_location) =
                match_loop (microphones_locations_and_signals_dict
                              all_microphone_locations_and_data) args
         in Inr (Matched signal_list mic_location))
      else Inr (Message mismatch_message))"

subsection \<open>DOA estimation adapter\<close>

text \<open>
  The external solver (\<^verbatim>\<open>pyroomacoustics\<close>: the STFT of each signal, the construction of
  the DOA object and \<^verbatim>\<open>locate_sources\<close>) is a parameter. It receives the object, the
  signals and the microphone locations, and fails or returns \<^verbatim>\<open>azimuth_recon\<close> and
  \<^verbatim>\<open>colatitude_recon\<close>; the two arrays have one entry per located source and are kept
  here as one list of pairs (azimuth, co-latitude).
\<close>

type_synonym solver = "ssl \<Rightarrow> real list list \<Rightarrow> real list list \<Rightarrow> error + (real \<times> real) list"

fun sig_vals :: "row \<Rightarrow> real list" where
  "sig_vals (RSig xs) = xs"
| "sig_vals r = []"

text \<open>
  \<^verbatim>\<open>difference_of_arrivals(signal_list, *mic_location)\<close>, called with the one argument
  \<^verbatim>\<open>mic_locations\<close>, in the order of the source:

  \<^item> an empty signal list raises \<^verbatim>\<open>ValueError\<close>;
  \<^item> for a list of one row, \<^verbatim>\<open>None in signal_list\<close> compares the row with \<^verbatim>\<open>None\<close>:
    it is true for the row \<^verbatim>\<open>None\<close> (\<^verbatim>\<open>ValueError\<close>), false for a string, and for a
    numeric row it takes the truth value of an array as long as the row, which raises
    \<^verbatim>\<open>ValueError\<close> when the row has more than one sample and is false otherwise;
  \<^item> \<^verbatim>\<open>None in signal\<close> is false for a numeric row and raises \<^verbatim>\<open>TypeError\<close> for a
    row that is \<^verbatim>\<open>None\<close> or a string;
  \<^item> the tuple \<^verbatim>\<open>mic_location\<close> has one entry, a list, so its two checks never raise;
  \<^item> \<^verbatim>\<open>np.vstack(list(zip(*mic_location)))\<close> stacks one row per location: it raises
    \<^verbatim>\<open>ValueError\<close> when there is no location, and when the locations differ in length;
  \<^item> the rest is the solver.
\<close>

definition difference_of_arrivals ::
  "solver \<Rightarrow> ssl \<Rightarrow> row list \<Rightarrow> real list list \<Rightarrow> error + (real \<times> real) list" where
  "difference_of_arrivals solve self signal_list mic_location =
     (if signal_list = [] then Inl (ValueError ''Error. Signal list is empty.'')
      else if length signal_list = 1 \<and> RNone \<in> set signal_list then
        Inl (ValueError ''Error. None in signal list.'')
      else if length signal_list = 1 \<and> 1 < length (sig_vals (hd signal_list)) then
        Inl (ValueError ''The truth value of an array with more than one element is ambiguous.'')
      else if \<not> list_all is_sig signal_list then
        Inl (TypeError ''argument is not iterable'')
      else if mic_location = [] then
        Inl (ValueError ''need at least one array to concatenate'')
      else if \<not> list_all (\<lambda>l. length l = length (hd mic_location)) mic_location then
        Inl (ValueError ''all the input array dimensions except for the concatenation axis must match exactly'')
      else solve self (map sig_vals signal_list) mic_location)"

subsection \<open>Array operations\<close>

text \<open>
  A two-dimensional array is the list of its rows. The product of the radius column
  (shape \<open>(N, 1)\<close>) with an array of \<open>g\<close> rows follows NumPy's broadcasting: the row
  counts must be equal or one of them must be 1.
\<close>

definition broadcast_error :: error where
  "broadcast_error = ValueError ''operands could not be broadcast together''"

definition radius_times :: "real list \<Rightarrow> real list list \<Rightarrow> error + real list list" where
  "radius_times rs vs =
     (if length vs = 1 then Inr (map (\<lambda>r. map ((*) r) (hd vs)) rs)
      else if length rs = 1 then Inr (map (map ((*) (hd rs))) vs)
      else if length rs = length vs then Inr (map2 (\<lambda>r v. map ((*) r) v) rs vs)
      else Inl broadcast_error)"

text \<open>
  Adding the row \<^verbatim>\<open>np.array(c)[np.newaxis, :]\<close> to an array with \<open>m\<close> columns: the column
  counts must be equal or one of them must be 1.
\<close>

definition plus_row :: "nat \<Rightarrow> real list \<Rightarrow> real list list \<Rightarrow> error + real list list" where
  "plus_row m c rows =
     (if length c = m then Inr (map (\<lambda>v. map2 (+) v c) rows)
      else if length c = 1 then Inr (map (map (\<lambda>x. x + hd c)) rows)
      else if m = 1 then Inr (map (\<lambda>v. map (\<lambda>y. hd v + y) c) rows)
      else Inl broadcast_error)"

text \<open>\<^verbatim>\<open>self.radius * a + np.array(c)[np.newaxis, :]\<close> for an array \<open>a\<close> with \<open>m\<close> columns.\<close>

definition scale_and_recenter ::
  "ssl \<Rightarrow> nat \<Rightarrow> real list \<Rightarrow> real list list \<Rightarrow> error + real list list" where
  "scale_and_recenter self m c a =
     (case radius_times (radius self) a of
        Inl e \<Rightarrow> Inl e
      | Inr scaled \<Rightarrow> plus_row m c scaled)"

text \<open>
  \<^verbatim>\<open>np.vsplit(a, n)\<close>: \<open>n\<close> groups of equally many rows. It raises when \<open>n\<close> is not
  positive or does not divide the number of rows: the remainder \<^verbatim>\<open>N % n\<close> is computed
  first (for \<open>n = 0\<close> this is a \<^verbatim>\<open>ZeroDivisionError\<close>), the sign of \<open>n\<close> is tested after.
\<close>

definition vsplit :: "'a list \<Rightarrow> int \<Rightarrow> error + 'a list list" where
  "vsplit rows n =
     (if n = 0 then Inl ZeroDivisionError
      else if length rows mod nat \<bar>n\<bar> \<noteq> 0 then
        Inl (ValueError ''array split does not result in an equal division'')
      else if n < 0 then Inl (ValueError ''number sections must be larger than 0.'')
      else Inr (map (\<lambda>i. take (length rows div nat n) (drop (i * (length rows div nat n)) rows))
                    [0..<nat n]))"

text \<open>Running a fallible function over a list; the first failure is the result.\<close>

fun map_err :: "('a \<Rightarrow> error + 'b) \<Rightarrow> 'a list \<Rightarrow> error + 'b list" where
  "map_err f [] = Inr []"
| "map_err f (x # xs) =
     (case f x of
        Inl e \<Rightarrow> Inl e
      | Inr y \<Rightarrow> (case map_err f xs of Inl e \<Rightarrow> Inl e | Inr ys \<Rightarrow> Inr (y # ys)))"

subsection \<open>Estimate generator\<close>

text \<open>The argument \<^verbatim>\<open>cartesian_arr\<close>: a NumPy array, or a value of another type.\<close>

datatype pyarray = NdArray "real list list" | NotNdArray

text \<open>
  \<^verbatim>\<open>split_and_conquer\<close>. \<^verbatim>\<open>cartesian_arr.T\<close> has as many columns as
  \<^verbatim>\<open>cartesian_arr\<close> has rows. The loop replaces each group by its scaled and recentred
  points, and \<^verbatim>\<open>np.vstack\<close> puts the groups one after the other.
\<close>

definition split_and_conquer :: "ssl \<Rightarrow> real list \<Rightarrow> pyarray \<Rightarrow> error + real list list" where
  "split_and_conquer self the_centroid cartesian_arr =
     (case cartesian_arr of
        NotNdArray \<Rightarrow> Inl (TypeError ''Error. Cartesian array is not a numpy array'')
      | NdArray a \<Rightarrow>
          (case vsplit (transpose a) (num_sources self) of
             Inl e \<Rightarrow> Inl e
           | Inr array_split \<Rightarrow>
               (case map_err (scale_and_recenter self (length a) the_centroid) array_split of
                  Inl e \<Rightarrow> Inl e
                | Inr groups \<Rightarrow> Inr (concat groups))))"

text \<open>The \<open>(3, k)\<close> array of unit directions for \<open>k\<close> pairs (azimuth, co-latitude).\<close>

definition cartesian_coordinates :: "(real \<times> real) list \<Rightarrow> real list list" where
  "cartesian_coordinates dirs =
     [map (\<lambda>(az, colat). cos az * sin colat) dirs,
      map (\<lambda>(az, colat). sin az * sin colat) dirs,
      map (\<lambda>(az, colat). cos colat) dirs]"

text \<open>
  \<^verbatim>\<open>get_estimates(sound_data, *mic_split)\<close>. The sound data is what
  \<^verbatim>\<open>get_sound_data\<close> returned, so it may be \<^verbatim>\<open>None\<close>, on which \<^verbatim>\<open>tolist\<close> raises
  \<^verbatim>\<open>AttributeError\<close>. When the matching returns its message string, unpacking it into
  two names raises \<^verbatim>\<open>ValueError\<close>.
\<close>

definition get_estimates ::
  "solver \<Rightarrow> ssl \<Rightarrow> row list option \<Rightarrow> string option list \<Rightarrow> error + real list list" where
  "get_estimates solve self sound_data mic_split =
     (if mic_split = [] then Inl (ValueError ''Error. Mic split list is empty.'')
      else if None \<in> set mic_split then
        Inl (ValueError ''Error. None in mic split list is empty.'')
      else
        (case sound_data of
           None \<Rightarrow> Inl (AttributeError ''NoneType object has no attribute tolist'')
         | Some data \<Rightarrow>
        (case get_mic_match_with_sound_data data mic_split of
           Inl e \<Rightarrow> Inl e
         | Inr (Message s) \<Rightarrow> Inl (ValueError ''too many values to unpack (expected 2)'')
         | Inr (Matched signal mic_locations) \<Rightarrow>
        (case get_centroid [map (\<lambda>l. Loc (map CFloat l)) mic_locations] of
           Inl e \<Rightarrow> Inl e
         | Inr centroid \<Rightarrow>
        (case difference_of_arrivals solve self signal mic_locations of
           Inl e \<Rightarrow> Inl e
         | Inr dirs \<Rightarrow>
             (let cartesian = cartesian_coordinates dirs in
              if num_sources self > 1 then split_and_conquer self centroid (NdArray cartesian)
              else scale_and_recenter self 3 centroid (transpose cartesian)))))))"

subsection \<open>Combination scheduler\<close>

text \<open>\<^verbatim>\<open>itertools.combinations\<close>: the sublists of a given length, in lexicographic order
  of positions.\<close>

fun combinations :: "'a list \<Rightarrow> nat \<Rightarrow> 'a list list" where
  "combinations xs 0 = [[]]"
| "combinations [] (Suc r) = []"
| "combinations (x # xs) (Suc r) = map ((#) x) (combinations xs r) @ combinations xs (Suc r)"

definition s1_mics :: "string list" where
  "s1_mics = map (\<lambda>i. ''mic'' @ str_nat i) [2, 3, 6, 7, 10, 11]"

definition s2_mics :: "string list" where
  "s2_mics = map (\<lambda>i. ''mic'' @ str_nat i) [1, 2, 5, 6, 9, 10]"

definition center_of_room :: "real list" where
  "center_of_room = map (\<lambda>x. x / 2) [0.34925, 0.219964, 0.2413]"

text \<open>
  The chunks \<^verbatim>\<open>mic_list[i * splits:(i+1) * splits]\<close>, one for each \<open>i\<close> below the
  rounded-up quotient.
\<close>

definition mic_split_list :: "'a list \<Rightarrow> nat \<Rightarrow> 'a list list" where
  "mic_split_list mic_list splits =
     map (\<lambda>i. take splits (drop (i * splits) mic_list))
         [0..<(length mic_list + splits - 1) div splits]"

text \<open>
  The subsets in the order they are dispatched: in round \<open>j\<close>, the \<open>j\<close>-th entry of each of
  the chunks 0 to 4. With \<open>splits = len div 5 \<ge> 1\<close> there are at least five chunks and the
  first five have \<open>splits\<close> entries each, so no index is out of range
  (lemma \<open>dispatch_order_index\<close>).
\<close>

definition dispatch_order :: "'a list list \<Rightarrow> nat \<Rightarrow> 'a list" where
  "dispatch_order chunks splits =
     concat (map (\<lambda>j. map (\<lambda>b. chunks ! b ! j) [0..<5]) [0..<splits])"

text \<open>
  \<^verbatim>\<open>np.array(outputs_list)\<close> followed by the reshape to two dimensions: the arrays, which
  must have equally many rows, one after the other.
\<close>

definition reshape_outputs :: "real list list list \<Rightarrow> error + real list list" where
  "reshape_outputs outputs_list =
     (case outputs_list of
        [] \<Rightarrow> Inl (ValueError ''tuple index out of range'')
      | a # as \<Rightarrow>
          if list_all (\<lambda>b. length b = length a) as then Inr (concat outputs_list)
          else Inl (ValueError ''inhomogeneous shape''))"

text \<open>
  The body of \<^verbatim>\<open>process_potential_estimates\<close> from the list of subsets on.

  Modelled from the spec: \<^verbatim>\<open>ThreadWithReturnValue\<close> of \<^verbatim>\<open>scripts/utils.py\<close>, which is not
  among the sources. \<^verbatim>\<open>join\<close> returns what the target returned, and a target that fails
  makes the processing of the cycle fail. The five workers of a round share no mutable
  state, so joining them in order gives what calling them in order gives.
\<close>

definition process_mic_list ::
  "solver \<Rightarrow> ssl \<Rightarrow> row list option \<Rightarrow> string list list \<Rightarrow> error + real list list" where
  "process_mic_list solve self all_sound_data mic_list =
     (let splits = length mic_list div 5 in
      if splits = 0 then Inl ZeroDivisionError
      else
        (case map_err (\<lambda>mic_split. get_estimates solve self all_sound_data (map Some mic_split))
                (dispatch_order (mic_split_list mic_list splits) splits) of
           Inl e \<Rightarrow> Inl e
         | Inr outputs_list \<Rightarrow>
             (case reshape_outputs outputs_list of
                Inl e \<Rightarrow> Inl e
              | Inr potential_sources \<Rightarrow>
                  Inr (map (\<lambda>p. map2 (+) center_of_room p) potential_sources))))"

definition process_potential_estimates ::
  "solver \<Rightarrow> ssl \<Rightarrow> row list option \<Rightarrow> error + real list list" where
  "process_potential_estimates solve self all_sound_data =
     (let mics = (if s1_bool self then s1_mics else s2_mics) in
      if combinations_number self < 0 then Inl (ValueError ''r must be non-negative'')
      else process_mic_list solve self all_sound_data
             (combinations mics (nat (combinations_number self))))"

subsection \<open>The generator\<close>

definition sound_list :: "string list" where
  "sound_list =
     concat (map (\<lambda>sound_source. map (\<lambda>cycle. sound_source @ ''_'' @ cycle)
                                     (map (\<lambda>i. ''Cycle'' @ str_nat i) [0..<24]))
                 (map (\<lambda>i. ''S'' @ str_nat i) [1..<3]))"

definition s2_names :: "string list" where
  "s2_names = map (\<lambda>j. ''S2_Cycle'' @ str_nat j) [0..<24]"

text \<open>
  One run of the generator \<^verbatim>\<open>generate_potential_sources\<close> over the remaining names,
  consumed to its end: the pairs it yields, the exception that ended it (if any), and the
  object as the run leaves it. The assignment to \<^verbatim>\<open>s1_bool\<close> changes the object itself.
\<close>

fun generate_loop ::
  "(string \<Rightarrow> error + (string \<rightharpoonup> row list)) \<Rightarrow> solver \<Rightarrow> ssl \<Rightarrow> string list \<Rightarrow>
     (string \<times> real list list) list \<times> error option \<times> ssl" where
  "generate_loop loadmat solve self [] = ([], None, self)"
| "generate_loop loadmat solve self (source_name # names) =
     (let self' = (if source_name \<in> set s2_names then self\<lparr>s1_bool := False\<rparr> else self) in
      case get_sound_data loadmat self' source_name of
        Inl e \<Rightarrow> ([], Some e, self')
      | Inr sound_data_of_interest \<Rightarrow>
          (case process_potential_estimates solve self' sound_data_of_interest of
             Inl e \<Rightarrow> ([], Some e, self')
           | Inr points \<Rightarrow>
               (let (yielded, err, self'') = generate_loop loadmat solve self' names
                in ((source_name, points) # yielded, err, self''))))"

definition generate_potential_sources ::
  "(string \<Rightarrow> error + (string \<rightharpoonup> row list)) \<Rightarrow> solver \<Rightarrow> ssl \<Rightarrow>
     (string \<times> real list list) list \<times> error option \<times> ssl" where
  "generate_potential_sources loadmat solve self = generate_loop loadmat solve self sound_list"

subsection \<open>Recognised microphone names\<close>

text \<open>
  The keys of the dictionary of \<^verbatim>\<open>get_mic_match_with_sound_data\<close> and, for an argument
  of the call, the position of the microphone it names (if it names one).
\<close>

definition mic_names :: "string list" where
  "mic_names = map (\<lambda>j. ''mic'' @ str_nat (j + 1)) [0..<12]"

definition mic_index :: "string option \<Rightarrow> nat option" where
  "mic_index arg =
     (case arg of None \<Rightarrow> None | Some name \<Rightarrow> map_of (zip mic_names [0..<12]) name)"

text \<open>A signal matrix of twelve rows, used to evaluate the functions.\<close>

definition example_data :: "row list" where
  "example_data =
     [RSig [1], RSig [2], RSig [3], RSig [4], RSig [5], RSig [6], RSig [7], RSig [8],
      RSig [9], RSig [10], RSig [11], RSig [12]]"

subsection \<open>Groups of locations that \<^verbatim>\<open>get_centroid\<close> rejects\<close>

text \<open>A coordinate that is a number: a float or an int.\<close>

fun is_numeric :: "coord \<Rightarrow> bool" where
  "is_numeric (CFloat x) = True"
| "is_numeric (CInt i) = True"
| "is_numeric c = False"

text \<open>
  A group of locations is rejected when it has no coordinate at all, when it contains
  \<^verbatim>\<open>None\<close> (as a location or as a coordinate), when two of its locations differ in
  length, or when a coordinate is not a float.
\<close>

definition rejected_group :: "location list \<Rightarrow> bool" where
  "rejected_group g \<longleftrightarrow>
     (\<forall>l\<in>set g. l = Loc [])
   \<or> (LNone \<in> set g \<or> (\<exists>cs. Loc cs \<in> set g \<and> CNone \<in> set cs))
   \<or> (\<exists>l\<in>set g. \<exists>k\<in>set g. location_len l \<noteq> location_len k)
   \<or> (\<exists>cs c. Loc cs \<in> set g \<and> c \<in> set cs \<and> \<not> is_float c)"

subsection \<open>A stub solver and an object for evaluation\<close>

text \<open>
  A solver that always locates one source at azimuth 0 and co-latitude 0, an object with
  the radius grid \<open>[1]\<close>, and the estimate \<^verbatim>\<open>get_estimates\<close> then gives for a subset of
  microphone names: the centroid of their locations moved by 1 along \<open>z\<close>.
\<close>

definition example_solver :: solver where
  "example_solver self signals mic_location = Inr [(0, 0)]"

definition example_object :: ssl where
  "example_object = (init ''data/'' ''SRP'' 1 (PyBool False) False)\<lparr>radius := [1]\<rparr>"

definition example_est :: "string list \<Rightarrow> real list list" where
  "example_est s =
     (let ls = map (\<lambda>j. create_microphone_locations_list ! j)
                   (List.map_filter mic_index (map Some s));
          c = map (\<lambda>j. sum_list (map (\<lambda>x. x ! j) ls) / real (length ls)) [0..<3]
      in [[c ! 0, c ! 1, 1 + c ! 2]])"

text \<open>
  A loader that returns the same twelve-row matrix for every file and variable, the names
  of the S1 cycles, and the points \<^verbatim>\<open>process_potential_estimates\<close> then returns for a
  pool of microphones.
\<close>

definition example_loadmat :: "string \<Rightarrow> error + (string \<rightharpoonup> row list)" where
  "example_loadmat path = Inr (\<lambda>var. Some example_data)"

definition s1_names :: "string list" where
  "s1_names = map (\<lambda>j. ''S1_Cycle'' @ str_nat j) [0..<24]"

definition example_points :: "string list \<Rightarrow> real list list" where
  "example_points mics =
     map (\<lambda>p. map2 (+) center_of_room p)
         (concat (map example_est (dispatch_order (mic_split_list (combinations mics 3) 4) 4)))"

section \<open>Properties\<close>

subsection \<open>Evaluating the names\<close>

lemma str_nat_digits:
  "map str_nat [0..<24] =
     [''0'', ''1'', ''2'', ''3'', ''4'', ''5'', ''6'', ''7'', ''8'', ''9'', ''10'', ''11'',
      ''12'', ''13'', ''14'', ''15'', ''16'', ''17'', ''18'', ''19'', ''20'', ''21'', ''22'',
      ''23'']"
  by code_simp

lemma mic_names_eval:
  "map (\<lambda>j. ''mic'' @ str_nat (j + 1)) [0..<12] =
     [''mic1'', ''mic2'', ''mic3'', ''mic4'', ''mic5'', ''mic6'', ''mic7'', ''mic8'', ''mic9'',
      ''mic10'', ''mic11'', ''mic12'']"
  by code_simp

lemma upt_1_3: "[1..<3] = [1, 2::nat]"
  by code_simp

lemma keys_map:
  "map fst (source_name_dict rec) = concat (map (\<lambda>x. map (cycle_key x) [0..<24]) [1..<3])"
  by (simp add: source_name_dict_def map_concat comp_def)

lemma keys_eval:
  "map fst (source_name_dict rec) =
     map (\<lambda>y. ''S1_Cycle'' @ y) (map str_nat [0..<24]) @
     map (\<lambda>y. ''S2_Cycle'' @ y) (map str_nat [0..<24])"
proof -
  have b: "str_nat 1 = ''1''" "str_nat 2 = ''2''"
    by code_simp+
  have c: "cycle_key 1 = (\<lambda>y. ''S1_Cycle'' @ str_nat y)"
    "cycle_key 2 = (\<lambda>y. ''S2_Cycle'' @ str_nat y)"
    unfolding cycle_key_def b by simp_all
  show ?thesis
    unfolding keys_map upt_1_3 by (simp add: c comp_def del: One_nat_def)
qed

lemma keys_set:
  "fst ` set (source_name_dict rec) = (\<lambda>(x, y). cycle_key x y) ` ({1, 2} \<times> {0..<24})"
proof -
  have "fst ` set (source_name_dict rec) = set (map fst (source_name_dict rec))"
    by simp
  also have "\<dots> = (\<lambda>(x, y). cycle_key x y) ` ({1, 2} \<times> {0..<24})"
    unfolding keys_map upt_1_3 by (auto simp del: One_nat_def)
  finally show ?thesis .
qed

lemma not_a_key:
  "map_of (source_name_dict rec) ''S1_Cycle24'' = None"
  "map_of (source_name_dict rec) ''S3_Cycle0'' = None"
  unfolding map_of_eq_None_iff set_map [symmetric] keys_eval str_nat_digits by simp_all

subsection \<open>Unknown source and cycle names\<close>

text \<open>
  Claim C9. With a boolean \<^verbatim>\<open>recovered\<close> flag, \<^verbatim>\<open>get_sound_data\<close> raises
  \<^verbatim>\<open>NameError\<close> (the NotFoundError of the specification) for every name that is not
  \<^verbatim>\<open>S{x}_Cycle{y}\<close> with \<open>x\<close> in \<open>{1, 2}\<close> and \<open>y\<close> in \<open>0..23\<close>, before the loader is
  called; in particular for source S3 with cycle 0 and for source S1 with cycle 24.
\<close>

theorem get_sound_data_unknown_name:
  assumes "recovered self = PyBool rec"
  shows "(name \<notin> (\<lambda>(x, y). cycle_key x y) ` ({1, 2} \<times> {0..<24}) \<longrightarrow>
           get_sound_data loadmat self name =
             Inl (NameError (name @ '' name not in cycle list'')))
       \<and> get_sound_data loadmat self ''S3_Cycle0'' =
             Inl (NameError ''S3_Cycle0 name not in cycle list'')
       \<and> get_sound_data loadmat self ''S1_Cycle24'' =
             Inl (NameError ''S1_Cycle24 name not in cycle list'')"
proof (intro conjI impI)
  assume "name \<notin> (\<lambda>(x, y). cycle_key x y) ` ({1, 2} \<times> {0..<24})"
  then have "map_of (source_name_dict rec) name = None"
    unfolding map_of_eq_None_iff keys_set .
  then show "get_sound_data loadmat self name =
      Inl (NameError (name @ '' name not in cycle list''))"
    using assms by (simp add: get_sound_data_def)
next
  show "get_sound_data loadmat self ''S3_Cycle0'' =
      Inl (NameError ''S3_Cycle0 name not in cycle list'')"
    using assms by (simp add: get_sound_data_def not_a_key)
next
  show "get_sound_data loadmat self ''S1_Cycle24'' =
      Inl (NameError ''S1_Cycle24 name not in cycle list'')"
    using assms by (simp add: get_sound_data_def not_a_key)
qed

theorem get_sound_data_unknown_name_witness:
  "recovered (init ''data/'' ''SRP'' 1 (PyBool False) False) = PyBool False
   \<and> ''S2_Cycle24'' \<notin> (\<lambda>(x, y). cycle_key x y) ` ({1, 2} \<times> {0..<24})
   \<and> get_sound_data (\<lambda>p. Inr Map.empty) (init ''data/'' ''SRP'' 1 (PyBool False) False)
        ''S2_Cycle24'' = Inl (NameError ''S2_Cycle24 name not in cycle list'')"
proof -
  have r: "recovered (init ''data/'' ''SRP'' 1 (PyBool False) False) = PyBool False"
    by (simp add: init_def)
  have "''S2_Cycle24'' \<notin> set (map fst (source_name_dict False))"
    unfolding keys_eval str_nat_digits by simp
  then have "''S2_Cycle24'' \<notin> fst ` set (source_name_dict False)"
    by simp
  then have n: "''S2_Cycle24'' \<notin> (\<lambda>(x, y). cycle_key x y) ` ({1, 2} \<times> {0..<24})"
    unfolding keys_set .
  show ?thesis
    using get_sound_data_unknown_name [OF r, of "''S2_Cycle24''" "\<lambda>p. Inr Map.empty"] r n
    by simp
qed

subsection \<open>Matching microphones to signals\<close>

lemma mic_names_literal:
  "mic_names = [''mic1'', ''mic2'', ''mic3'', ''mic4'', ''mic5'', ''mic6'', ''mic7'', ''mic8'', ''mic9'',
      ''mic10'', ''mic11'', ''mic12'']"
  unfolding mic_names_def by (rule mic_names_eval)

lemma length_mic_names: "length mic_names = 12"
  unfolding mic_names_def by simp

lemma distinct_mic_names: "distinct mic_names"
  unfolding mic_names_literal by simp

lemma length_locations: "length create_microphone_locations_list = 12"
  by (simp add: create_microphone_locations_list_def)

lemma map_of_map_pair:
  "map_of (map (\<lambda>j. (f j, g j)) js) n = map_option g (map_of (map (\<lambda>j. (f j, j)) js) n)"
  by (induction js) auto

lemma zip_names: "zip mic_names [0..<12] = map (\<lambda>j. (''mic'' @ str_nat (j + 1), j)) [0..<12]"
  unfolding mic_names_def zip_map1 zip_same_conv_map map_map comp_def by simp

lemma mic_index_name: 
  assumes j: "j < 12" shows "mic_index (Some (''mic'' @ str_nat (j + 1))) = Some j"
proof -
  have "map fst (zip mic_names [0..<12]) = mic_names"
    by (rule map_fst_zip) (simp add: length_mic_names)
  then have d: "distinct (map fst (zip mic_names [0..<12]))"
    using distinct_mic_names by simp
  have "(''mic'' @ str_nat (j + 1), j) \<in> set (map (\<lambda>j. (''mic'' @ str_nat (j + 1), j)) [0..<12])"
    using j by (simp add: image_iff del: upt_Suc)
  then have "(''mic'' @ str_nat (j + 1), j) \<in> set (zip mic_names [0..<12])"
    unfolding zip_names .
  from map_of_is_SomeI [OF d this] show ?thesis
    unfolding mic_index_def by simp
qed

lemma dict_lookup:
  assumes "length data = 12"
  shows "map_of (microphones_locations_and_signals_dict (zip create_microphone_locations_list data)) name =
         map_option (\<lambda>j. (create_microphone_locations_list ! j, data ! j)) (mic_index (Some name))"
proof -
  have l: "length (zip create_microphone_locations_list data) = 12"
    using assms by (simp add: length_locations)
  have "\<And>j. j \<in> set [0..<12] \<Longrightarrow> zip create_microphone_locations_list data ! j = (create_microphone_locations_list ! j, data ! j)"
    using assms by (simp add: length_locations del: upt_Suc)
  then have "map (\<lambda>j. (''mic'' @ str_nat (j + 1), zip create_microphone_locations_list data ! j)) [0..<12] =
        map (\<lambda>j. (''mic'' @ str_nat (j + 1), (create_microphone_locations_list ! j, data ! j))) [0..<12]"
    by (intro map_cong refl) simp
  then have "microphones_locations_and_signals_dict (zip create_microphone_locations_list data) =
        map (\<lambda>j. (''mic'' @ str_nat (j + 1), (create_microphone_locations_list ! j, data ! j))) [0..<12]"
    unfolding microphones_locations_and_signals_dict_def l .
  then show ?thesis
    unfolding mic_index_def zip_names option.case by (simp only:) (rule map_of_map_pair)
qed

lemma match_loop_eq:
  assumes "length data = 12"
  shows "match_loop (microphones_locations_and_signals_dict (zip create_microphone_locations_list data)) args =
         (map (\<lambda>j. data ! j) (List.map_filter mic_index args),
          map (\<lambda>j. create_microphone_locations_list ! j) (List.map_filter mic_index args))"
proof (induction args)
  case Nil
  show ?case by (simp add: List.map_filter_simps)
next
  case (Cons a args)
  show ?case
  proof (cases a)
    case None
    then show ?thesis using Cons by (simp add: List.map_filter_simps mic_index_def)
  next
    case (Some name)
    then show ?thesis using Cons dict_lookup [OF assms, of name]
      by (cases "mic_index (Some name)") (simp_all add: List.map_filter_simps)
  qed
qed

lemma data_size_12: "length data = 12 \<Longrightarrow> \<not> (data_size data = 1 \<and> RNone \<in> set data)"
  by (auto simp: data_size_def list_all_iff)

lemma matched_12:
  assumes "length data = 12" "RNone \<notin> set data" "RStr [] \<notin> set data" "args \<noteq> []"
  shows "get_mic_match_with_sound_data data args =
     Inr (Matched (map (\<lambda>j. data ! j) (List.map_filter mic_index args))
                  (map (\<lambda>j. create_microphone_locations_list ! j) (List.map_filter mic_index args)))"
proof -
  have "data \<noteq> []" using assms(1) by auto
  then show ?thesis
    using assms data_size_12 [OF assms(1)]
    by (simp add: get_mic_match_with_sound_data_def length_locations match_loop_eq)
qed

lemma map_filter_known:
  "\<forall>j\<in>set js. j < 12 \<Longrightarrow> List.map_filter mic_index (map (\<lambda>j. Some (''mic'' @ str_nat (j + 1))) js) = js"
proof (induction js)
  case Nil
  show ?case by (simp add: List.map_filter_simps)
next
  case (Cons j js)
  then have "j < 12" by simp
  from mic_index_name [OF this] Cons show ?case
    unfolding list.map List.map_filter_simps by simp
qed

lemma mic_index_bound: "mic_index a = Some j \<Longrightarrow> j < 12 \<and> a = Some (''mic'' @ str_nat (j + 1))"
proof -
  assume h: "mic_index a = Some j"
  then obtain name where a: "a = Some name" by (cases a) (simp_all add: mic_index_def)
  with h have "map_of (zip mic_names [0..<12]) name = Some j" by (simp add: mic_index_def)
  then have "(name, j) \<in> set (zip mic_names [0..<12])" by (rule map_of_SomeD)
  then have "(name, j) \<in> set (map (\<lambda>j. (''mic'' @ str_nat (j + 1), j)) [0..<12])"
    unfolding zip_names .
  then show ?thesis using a by (auto simp del: upt_Suc)
qed

lemma mic_index_iff: "mic_index a = Some j \<longleftrightarrow> j < 12 \<and> a = Some (''mic'' @ str_nat (j + 1))"
  using mic_index_bound mic_index_name by blast

lemma mismatch_returns_message:
  assumes "data \<noteq> []" "RNone \<notin> set data" "RStr [] \<notin> set data" "args \<noteq> []" "length data \<noteq> 12"
  shows "get_mic_match_with_sound_data data args = Inr (Message mismatch_message)"
  using assms by (simp add: get_mic_match_with_sound_data_def length_locations)

text \<open>
  Claim C1. A signal matrix whose row count differs from 12 should make
  \<^verbatim>\<open>get_mic_match_with_sound_data\<close> raise. The code returns the message as an ordinary
  value: for a matrix of 11 valid rows the result is the string, not an exception.
\<close>

theorem mismatch_is_returned_not_raised:
  "get_mic_match_with_sound_data (replicate 11 (RSig [0])) [Some ''mic1''] =
     Inr (Message ''Error. Mismatch in length of microphone location list and length of signal list.'')"
proof -
  have "get_mic_match_with_sound_data (replicate 11 (RSig [0])) [Some ''mic1''] = Inr (Message mismatch_message)"
    by (rule mismatch_returns_message) simp_all
  then show ?thesis by (simp add: mismatch_message_def)
qed

text \<open>
  Claim C8. For a 12-row signal matrix that passes the validation and a non-empty list of
  known microphone names, given by their positions \<open>js\<close>, the returned signals and
  locations are those of the requested microphones, in the order requested.
\<close>

theorem requested_order_preserved:
  assumes "length data = 12" "RNone \<notin> set data" "RStr [] \<notin> set data"
    and "js \<noteq> []" "\<forall>j\<in>set js. j < 12"
  shows "get_mic_match_with_sound_data data (map (\<lambda>j. Some (''mic'' @ str_nat (j + 1))) js) =
           Inr (Matched (map (\<lambda>j. data ! j) js)
                        (map (\<lambda>j. create_microphone_locations_list ! j) js))"
proof -
  have "map (\<lambda>j. Some (''mic'' @ str_nat (j + 1))) js \<noteq> []" using assms(4) by simp
  from matched_12 [OF assms(1,2,3) this] show ?thesis
    unfolding map_filter_known [OF assms(5)] .
qed

lemma str_nat_3_1: "str_nat 3 = ''3''" "str_nat 1 = ''1''"
  by code_simp+

lemma locations_literal:
  "create_microphone_locations_list =
    [[- 0.102235, - 0.109982, 0.056388], [- 0.102235, - 0.109982, 0.001524],
     [- 0.102235, - 0.109982, - 0.053340], [- 0.102235, - 0.109982, - 0.108204],
     [- 0.052197, - 0.109982, 0.056388], [- 0.052197, - 0.109982, 0.001524],
     [- 0.052197, - 0.109982, - 0.053340], [- 0.052197, - 0.109982, - 0.108204],
     [- 0.027304, - 0.109982, 0.056388], [- 0.027304, - 0.109982, 0.001524],
     [- 0.027304, - 0.109982, - 0.053340], [- 0.027304, - 0.109982, - 0.108204]]"
  by (simp add: create_microphone_locations_list_def)

theorem requested_order_preserved_witness:
  "length example_data = 12 \<and> RNone \<notin> set example_data \<and> RStr [] \<notin> set example_data
   \<and> [2, 0] \<noteq> ([] :: nat list) \<and> list_all (\<lambda>j. j < 12) [2, 0 :: nat]
   \<and> get_mic_match_with_sound_data example_data [Some ''mic3'', Some ''mic1''] =
        Inr (Matched [RSig [3], RSig [1]]
               [[- 0.102235, - 0.109982, - 0.053340], [- 0.102235, - 0.109982, 0.056388]])"
proof -
  have a: "length example_data = 12" "RNone \<notin> set example_data" "RStr [] \<notin> set example_data"
    by (simp_all add: example_data_def)
  have b: "[2, 0] \<noteq> ([] :: nat list)" "\<forall>j\<in>set [2, 0 :: nat]. j < 12" by simp_all
  have c: "str_nat (2 + 1) = ''3''" "str_nat (0 + 1) = ''1''" using str_nat_3_1 by simp_all
  from requested_order_preserved [OF a b] a b show ?thesis
    unfolding list.map c by (simp add: locations_literal example_data_def)
qed

text \<open>
  Claim C10. For a 12-row signal matrix that passes the validation and a non-empty list of
  arguments, no error is raised, and the returned signals and locations are those of the
  arguments that name a microphone \<^verbatim>\<open>mic1\<close> .. \<^verbatim>\<open>mic12\<close>, in the order of the
  arguments; every other argument is passed over.
\<close>

theorem unknown_names_skipped:
  assumes "length data = 12" "RNone \<notin> set data" "RStr [] \<notin> set data" "args \<noteq> []"
  shows "get_mic_match_with_sound_data data args =
           Inr (Matched (map (\<lambda>j. data ! j) (List.map_filter mic_index args))
                        (map (\<lambda>j. create_microphone_locations_list ! j)
                             (List.map_filter mic_index args)))
         \<and> (\<forall>a j. mic_index a = Some j \<longleftrightarrow> j < 12 \<and> a = Some (''mic'' @ str_nat (j + 1)))"
  using matched_12 [OF assms] mic_index_iff by blast

lemma mic_index_eval:
  "mic_index (Some ''mic3'') = Some 2" "mic_index (Some ''bogus'') = None" "mic_index (Some ''mic1'') = Some 0"
  "mic_index None = None" "mic_index (Some ''mic13'') = None"
  unfolding mic_index_def option.case mic_names_literal by (simp_all add: upt_conv_Cons del: upt_Suc)

theorem unknown_names_skipped_witness:
  "length example_data = 12 \<and> RNone \<notin> set example_data \<and> RStr [] \<notin> set example_data
   \<and> [Some ''mic3'', Some ''bogus'', None, Some ''mic13'', Some ''mic1''] \<noteq> []
   \<and> get_mic_match_with_sound_data example_data
        [Some ''mic3'', Some ''bogus'', None, Some ''mic13'', Some ''mic1''] =
        Inr (Matched [RSig [3], RSig [1]]
               [[- 0.102235, - 0.109982, - 0.053340], [- 0.102235, - 0.109982, 0.056388]])"
proof -
  have a: "length example_data = 12" "RNone \<notin> set example_data" "RStr [] \<notin> set example_data"
    by (simp_all add: example_data_def)
  have b: "[Some ''mic3'', Some ''bogus'', None, Some ''mic13'', Some ''mic1''] \<noteq> []" by simp
  have c: "List.map_filter mic_index [Some ''mic3'', Some ''bogus'', None, Some ''mic13'', Some ''mic1''] = [2, 0]"
    by (simp add: List.map_filter_simps mic_index_eval)
  from unknown_names_skipped [OF a b] a b show ?thesis
    unfolding c by (simp add: locations_literal example_data_def)
qed

subsection \<open>The centroid\<close>

lemma flat_empty_iff: "convert_to_one_list [g] = [] \<longleftrightarrow> (\<forall>l\<in>set g. l = Loc [])"
proof -
  have "\<And>l. flat_location l = [] \<longleftrightarrow> l = Loc []"
    by (case_tac l) simp_all
  then show ?thesis by (simp add: convert_to_one_list_def)
qed

lemma flat_set: "set (convert_to_one_list [g]) = (\<Union>l\<in>set g. set (flat_location l))"
  by (simp add: convert_to_one_list_def)

lemma none_in_flat_iff:
  "CNone \<in> set (convert_to_one_list [g]) \<longleftrightarrow> LNone \<in> set g \<or> (\<exists>cs. Loc cs \<in> set g \<and> CNone \<in> set cs)"
proof
  assume "CNone \<in> set (convert_to_one_list [g])"
  then obtain l where mem: "l \<in> set g" and n: "CNone \<in> set (flat_location l)"
    unfolding flat_set by blast
  show "LNone \<in> set g \<or> (\<exists>cs. Loc cs \<in> set g \<and> CNone \<in> set cs)"
  proof (cases l)
    case LNone
    with mem show ?thesis by simp
  next
    case (Loc cs)
    with mem n show ?thesis by auto
  qed
next
  assume "LNone \<in> set g \<or> (\<exists>cs. Loc cs \<in> set g \<and> CNone \<in> set cs)"
  then show "CNone \<in> set (convert_to_one_list [g])"
    unfolding flat_set by force
qed

lemma same_length_iff:
  "check_list_of_lists_are_same_length [g] \<longleftrightarrow> (\<forall>l\<in>set g. \<forall>k\<in>set g. location_len l = location_len k)"
  by (cases g) (auto simp: check_list_of_lists_are_same_length_def list_all_iff)

lemma all_float_iff:
  "list_all is_float (convert_to_one_list [g]) \<longleftrightarrow>
     LNone \<notin> set g \<and> (\<forall>cs c. Loc cs \<in> set g \<and> c \<in> set cs \<longrightarrow> is_float c)"
proof -
  have "list_all is_float (convert_to_one_list [g]) \<longleftrightarrow> (\<forall>l\<in>set g. \<forall>c\<in>set (flat_location l). is_float c)"
    unfolding list_all_iff flat_set by blast
  also have "\<dots> \<longleftrightarrow> LNone \<notin> set g \<and> (\<forall>cs c. Loc cs \<in> set g \<and> c \<in> set cs \<longrightarrow> is_float c)"
  proof (intro iffI conjI allI impI ballI)
    assume h: "\<forall>l\<in>set g. \<forall>c\<in>set (flat_location l). is_float c"
    show "LNone \<notin> set g"
    proof
      assume "LNone \<in> set g"
      with h have "is_float CNone" by force
      then show False by simp
    qed
    fix cs c assume "Loc cs \<in> set g \<and> c \<in> set cs"
    with h show "is_float c" by force
  next
    fix l c
    assume h: "LNone \<notin> set g \<and> (\<forall>cs c. Loc cs \<in> set g \<and> c \<in> set cs \<longrightarrow> is_float c)"
      and l: "l \<in> set g" and c: "c \<in> set (flat_location l)"
    show "is_float c"
    proof (cases l)
      case LNone
      with h l show ?thesis by simp
    next
      case (Loc cs)
      with h l c show ?thesis by auto
    qed
  qed
  finally show ?thesis .
qed

lemma get_centroid_cases:
  "get_centroid [g] =
     (if \<forall>l\<in>set g. l = Loc [] then
        Inl (ValueError ''Error. Microphone location list is empty.'')
      else if LNone \<in> set g \<or> (\<exists>cs. Loc cs \<in> set g \<and> CNone \<in> set cs) then
        Inl (ValueError ''Error. Microphone location list contains None.'')
      else if \<not> (\<forall>l\<in>set g. \<forall>k\<in>set g. location_len l = location_len k) then
        Inl (ValueError ''Error. Not all microphone locations have same length!'')
      else if \<not> (LNone \<notin> set g \<and> (\<forall>cs c. Loc cs \<in> set g \<and> c \<in> set cs \<longrightarrow> is_float c)) then
        Inl (TypeError ''Error. Microphone location list does not contain a float type.'')
      else
        Inr (map (\<lambda>j. sum_list (map (\<lambda>l. location_vals l ! j) g) / real (length g))
              [0..<location_len (hd g)]))"
  unfolding get_centroid_def flat_empty_iff none_in_flat_iff same_length_iff all_float_iff
  by (simp only: list.case sum_axis0_def map_map comp_def)


lemma rejected_group_empty: "rejected_group []"
  by (simp add: rejected_group_def)

text \<open>
  Claim C7, as amended. For one group of locations, \<^verbatim>\<open>get_centroid\<close> raises a
  \<^verbatim>\<open>ValueError\<close> or \<^verbatim>\<open>TypeError\<close> exactly when the group is rejected: it has no
  coordinate, contains \<^verbatim>\<open>None\<close>, has locations of differing lengths, or has a
  coordinate that is not a float. Otherwise it returns the coordinate-wise arithmetic mean;
  a group of one location of floats returns that location.
\<close>

theorem get_centroid_single_group:
  "(rejected_group g \<longrightarrow> (\<exists>e. get_centroid [g] = Inl e \<and> is_ValidationError e))
 \<and> (\<not> rejected_group g \<longrightarrow>
      (\<exists>d>0. (\<forall>l\<in>set g. location_len l = d) \<and>
         get_centroid [g] =
           Inr (map (\<lambda>j. sum_list (map (\<lambda>l. location_vals l ! j) g) / real (length g))
                    [0..<d])))
 \<and> (xs \<noteq> [] \<longrightarrow> get_centroid [[Loc (map CFloat xs)]] = Inr xs)"
proof (intro conjI impI)
  assume "rejected_group g"
  then show "\<exists>e. get_centroid [g] = Inl e \<and> is_ValidationError e"
    unfolding rejected_group_def get_centroid_cases by auto
next
  assume n: "\<not> rejected_group g"
  then have a: "\<not> (\<forall>l\<in>set g. l = Loc [])"
    "\<not> (LNone \<in> set g \<or> (\<exists>cs. Loc cs \<in> set g \<and> CNone \<in> set cs))"
    "\<forall>l\<in>set g. \<forall>k\<in>set g. location_len l = location_len k"
    "LNone \<notin> set g \<and> (\<forall>cs c. Loc cs \<in> set g \<and> c \<in> set cs \<longrightarrow> is_float c)"
    unfolding rejected_group_def by blast+
  from a(1) obtain m where mem: "m \<in> set g" and ne: "m \<noteq> Loc []" by blast
  from mem have g: "g \<noteq> []" by auto
  then have h: "hd g \<in> set g" by simp
  have "0 < location_len m"
  proof (cases m)
    case LNone
    with mem a(2) show ?thesis by simp
  next
    case (Loc cs)
    with ne show ?thesis by simp
  qed
  with a(3) mem h have pos: "0 < location_len (hd g)" by metis
  have all: "\<forall>l\<in>set g. location_len l = location_len (hd g)" using a(3) h by blast
  have "get_centroid [g] =
      Inr (map (\<lambda>j. sum_list (map (\<lambda>l. location_vals l ! j) g) / real (length g))
               [0..<location_len (hd g)])"
  proof -
    have c: "(\<forall>l\<in>set g. l = Loc []) = False"
      "(LNone \<in> set g \<or> (\<exists>cs. Loc cs \<in> set g \<and> CNone \<in> set cs)) = False"
      "(\<forall>l\<in>set g. \<forall>k\<in>set g. location_len l = location_len k) = True"
      "(LNone \<notin> set g \<and> (\<forall>cs c. Loc cs \<in> set g \<and> c \<in> set cs \<longrightarrow> is_float c)) = True"
      using a by blast+
    show ?thesis
      unfolding get_centroid_cases c by (simp only: if_False not_True_eq_False)
  qed
  with pos all show "\<exists>d>0. (\<forall>l\<in>set g. location_len l = d) \<and>
         get_centroid [g] =
           Inr (map (\<lambda>j. sum_list (map (\<lambda>l. location_vals l ! j) g) / real (length g))
                    [0..<d])"
    by blast
next
  assume "xs \<noteq> []"
  then have "get_centroid [[Loc (map CFloat xs)]] =
     Inr (map (\<lambda>j. sum_list (map (\<lambda>l. location_vals l ! j) [Loc (map CFloat xs)]) / real (length [Loc (map CFloat xs)]))
              [0..<location_len (hd [Loc (map CFloat xs)])])"
    unfolding get_centroid_cases by auto
  also have "\<dots> = Inr (map (\<lambda>j. xs ! j) [0..<length xs])"
    by (simp add: comp_def)
  also have "\<dots> = Inr xs" by (simp add: map_nth)
  finally show "get_centroid [[Loc (map CFloat xs)]] = Inr xs" .
qed



lemma rejected_group_eval:
  "rejected_group g \<longleftrightarrow>
     convert_to_one_list [g] = [] \<or> CNone \<in> set (convert_to_one_list [g])
     \<or> \<not> check_list_of_lists_are_same_length [g]
     \<or> \<not> list_all is_float (convert_to_one_list [g])"
  unfolding rejected_group_def flat_empty_iff none_in_flat_iff same_length_iff all_float_iff
  by blast

theorem get_centroid_single_group_witness:
  "rejected_group [Loc [CFloat 1], Loc [CFloat 1, CFloat 2]]
   \<and> (\<exists>e. get_centroid [[Loc [CFloat 1], Loc [CFloat 1, CFloat 2]]] = Inl e
          \<and> is_ValidationError e)
   \<and> \<not> rejected_group [Loc [CFloat 1, CFloat 2], Loc [CFloat 3, CFloat 5]]
   \<and> get_centroid [[Loc [CFloat 1, CFloat 2], Loc [CFloat 3, CFloat 5]]] = Inr [2, 7 / 2]
   \<and> [4, 5, 6] \<noteq> ([] :: real list)
   \<and> get_centroid [[Loc (map CFloat [4, 5, 6])]] = Inr [4, 5, 6]"
proof -
  have r: "rejected_group [Loc [CFloat 1], Loc [CFloat 1, CFloat 2]]"
    unfolding rejected_group_eval
    by (simp add: convert_to_one_list_def check_list_of_lists_are_same_length_def)
  have a: "\<not> rejected_group [Loc [CFloat 1, CFloat 2], Loc [CFloat 3, CFloat 5]]"
    unfolding rejected_group_eval
    by (simp add: convert_to_one_list_def check_list_of_lists_are_same_length_def)
  have x: "[4, 5, 6] \<noteq> ([] :: real list)" by simp
  from get_centroid_single_group [of "[Loc [CFloat 1], Loc [CFloat 1, CFloat 2]]" "[4, 5, 6]"] r x
  have ex1: "\<exists>e. get_centroid [[Loc [CFloat 1], Loc [CFloat 1, CFloat 2]]] = Inl e \<and> is_ValidationError e"
    and e3: "get_centroid [[Loc (map CFloat [4, 5, 6])]] = Inr [4, 5, 6]"
    by blast+
  from get_centroid_single_group [of "[Loc [CFloat 1, CFloat 2], Loc [CFloat 3, CFloat 5]]" "[4, 5, 6]"] a
  obtain d where d: "0 < d" "\<forall>l\<in>set [Loc [CFloat 1, CFloat 2], Loc [CFloat 3, CFloat 5]]. location_len l = d"
    "get_centroid [[Loc [CFloat 1, CFloat 2], Loc [CFloat 3, CFloat 5]]] =
           Inr (map (\<lambda>j. sum_list (map (\<lambda>l. location_vals l ! j) [Loc [CFloat 1, CFloat 2], Loc [CFloat 3, CFloat 5]]) / real (length [Loc [CFloat 1, CFloat 2], Loc [CFloat 3, CFloat 5]]))
                    [0..<d])"
    by blast
  from d(2) have "d = 2" by simp
  with d(3) have e2: "get_centroid [[Loc [CFloat 1, CFloat 2], Loc [CFloat 3, CFloat 5]]] = Inr [2, 7 / 2]"
    by (simp add: upt_conv_Cons)
  from r a x ex1 e2 e3 show ?thesis by blast
qed

text \<open>
  Claim C7 as stated fails: a group of one location with the integer coordinates 1, 2, 3 is
  non-empty, of equal length and numeric, and \<^verbatim>\<open>get_centroid\<close> raises \<^verbatim>\<open>TypeError\<close>.
\<close>

theorem get_centroid_rejects_ints:
  "list_all is_numeric [CInt 1, CInt 2, CInt 3]
   \<and> get_centroid [[Loc [CInt 1, CInt 2, CInt 3]]] =
       Inl (TypeError ''Error. Microphone location list does not contain a float type.'')"
  by (simp add: get_centroid_def convert_to_one_list_def check_list_of_lists_are_same_length_def)

subsection \<open>Estimates from directions\<close>

lemma transpose_rect:
  assumes "\<forall>row\<in>set a. length row = n" "a \<noteq> []"
  shows "transpose a = map (\<lambda>i. map (\<lambda>j. a ! j ! i) [0..<length a]) [0..<n]"
  by (rule transpose_rectangle) (use assms in simp_all)

lemma length_transpose_rect:
  assumes "\<forall>row\<in>set a. length row = n" "a \<noteq> []"
  shows "length (transpose a) = n"
  unfolding transpose_rect [OF assms] by simp

lemma map_err_all_ok:
  "\<forall>x\<in>set xs. f x = Inr (g x) \<Longrightarrow> map_err f xs = Inr (map g xs)"
  by (induction xs) simp_all

lemma vsplit_singletons:
  assumes "0 < n" "length vs = nat n"
  shows "vsplit vs n = Inr (map (\<lambda>v. [v]) vs)"
proof -
  have d: "length vs div nat n = 1" using assms by simp
  have "map (\<lambda>i. take 1 (drop (i * 1) vs)) [0..<nat n] = map (\<lambda>v. [v]) vs"
  proof (rule nth_equalityI)
    show "length (map (\<lambda>i. take 1 (drop (i * 1) vs)) [0..<nat n]) = length (map (\<lambda>v. [v]) vs)"
      using assms by simp
    fix i assume "i < length (map (\<lambda>i. take 1 (drop (i * 1) vs)) [0..<nat n])"
    then have i: "i < length vs" using assms by simp
    then have "take 1 (drop i vs) = [vs ! i]"
      by (metis One_nat_def Cons_nth_drop_Suc take0 take_Suc_Cons)
    then show "map (\<lambda>i. take 1 (drop (i * 1) vs)) [0..<nat n] ! i = map (\<lambda>v. [v]) vs ! i"
      using i assms by simp
  qed
  then show ?thesis
    using assms unfolding vsplit_def d by simp
qed

lemma scale_and_recenter_one:
  assumes "length c = m"
  shows "scale_and_recenter self m c [v] =
           Inr (map (\<lambda>r. map2 (+) (map ((*) r) v) c) (radius self))"
  using assms by (simp add: scale_and_recenter_def radius_times_def plus_row_def comp_def)

lemma split_and_conquer_eq:
  assumes ns: "1 < num_sources self"
    and rect: "\<forall>row\<in>set a. length row = nat (num_sources self)" and ne: "a \<noteq> []"
    and c: "length c = length a"
  shows "split_and_conquer self c (NdArray a) =
           Inr (concat (map (\<lambda>v. map (\<lambda>r. map2 (+) (map ((*) r) v) c) (radius self))
                            (transpose a)))"
proof -
  have l: "length (transpose a) = nat (num_sources self)"
    using rect ne by (rule length_transpose_rect)
  have v: "vsplit (transpose a) (num_sources self) = Inr (map (\<lambda>v. [v]) (transpose a))"
    by (rule vsplit_singletons) (use ns l in simp_all)
  have m: "map_err (scale_and_recenter self (length a) c) (map (\<lambda>v. [v]) (transpose a)) =
        Inr (map (\<lambda>g. map (\<lambda>r. map2 (+) (map ((*) r) (hd g)) c) (radius self)) (map (\<lambda>v. [v]) (transpose a)))"
    by (rule map_err_all_ok) (auto simp: scale_and_recenter_one [OF c])
  show ?thesis
    unfolding split_and_conquer_def by (simp add: v m comp_def)
qed


lemma map2_scale_add:
  "length v = length c \<Longrightarrow>
     map2 (+) (map ((*) r) v) c = map (\<lambda>j. r * v ! j + c ! j) [0..<length c]"
  by (rule nth_equalityI) simp_all

lemma map2_scale_add_idx:
  "length c = m \<Longrightarrow>
     map2 (+) (map h [0..<m]) c = map (\<lambda>j. h j + c ! j) [0..<m]"
  by (rule nth_equalityI) simp_all

text \<open>
  Claim C3. With more than one source and a Cartesian array that has one column per source,
  \<^verbatim>\<open>split_and_conquer\<close> makes one group per source, scales the unit vector of each group
  by every radius, adds the same centroid \<open>c\<close> to each, and puts the groups one after the
  other: the number of points is the number of sources times the number of radii. With two
  sources the first and the second half are built with the same centroid.
\<close>

theorem split_and_conquer_multi_source:
  assumes "1 < num_sources self" "a \<noteq> []"
    and "\<forall>row\<in>set a. length row = nat (num_sources self)"
    and "length c = length a"
  shows "\<exists>pts. split_and_conquer self c (NdArray a) = Inr pts
      \<and> pts = concat (map (\<lambda>i. map (\<lambda>r. map (\<lambda>j. r * a ! j ! i + c ! j) [0..<length a])
                                     (radius self))
                          [0..<nat (num_sources self)])
      \<and> length pts = nat (num_sources self) * length (radius self)
      \<and> (num_sources self = 2 \<longrightarrow>
            pts = map (\<lambda>r. map (\<lambda>j. r * a ! j ! 0 + c ! j) [0..<length a]) (radius self) @
                  map (\<lambda>r. map (\<lambda>j. r * a ! j ! 1 + c ! j) [0..<length a]) (radius self))"
proof -
  let ?n = "nat (num_sources self)"
  let ?f = "\<lambda>i. map (\<lambda>r. map (\<lambda>j. r * a ! j ! i + c ! j) [0..<length a]) (radius self)"
  have t: "transpose a = map (\<lambda>i. map (\<lambda>j. a ! j ! i) [0..<length a]) [0..<?n]"
    using assms(3,2) by (rule transpose_rect)
  have "split_and_conquer self c (NdArray a) =
      Inr (concat (map (\<lambda>v. map (\<lambda>r. map2 (+) (map ((*) r) v) c) (radius self)) (transpose a)))"
    by (rule split_and_conquer_eq [OF assms(1,3,2,4)])
  also have "map (\<lambda>v. map (\<lambda>r. map2 (+) (map ((*) r) v) c) (radius self)) (transpose a) =
      map ?f [0..<?n]"
    unfolding t by (simp add: map2_scale_add_idx [OF assms(4)])
  finally have e: "split_and_conquer self c (NdArray a) = Inr (concat (map ?f [0..<?n]))" .
  have len: "length (concat (map ?f [0..<?n])) = ?n * length (radius self)"
    by (simp add: length_concat comp_def sum_list_triv)
  have two: "num_sources self = 2 \<longrightarrow> concat (map ?f [0..<?n]) = ?f 0 @ ?f 1"
  proof
    assume "num_sources self = 2"
    then have "[0..<?n] = [0, 1]" by (simp add: upt_conv_Cons)
    then show "concat (map ?f [0..<?n]) = ?f 0 @ ?f 1" by simp
  qed
  from e len two show ?thesis by blast
qed

theorem split_and_conquer_multi_source_witness:
  "1 < num_sources ((init ''d/'' ''SRP'' 2 (PyBool False) False)\<lparr>radius := [1, 2]\<rparr>)
   \<and> [[1, 0], [0, 1], [0, 0 :: real]] \<noteq> []
   \<and> list_all (\<lambda>row. length row =
                nat (num_sources ((init ''d/'' ''SRP'' 2 (PyBool False) False)\<lparr>radius := [1, 2]\<rparr>)))
         [[1, 0], [0, 1], [0, 0 :: real]]
   \<and> length [10, 20, 30 :: real] = length [[1, 0], [0, 1], [0, 0 :: real]]
   \<and> split_and_conquer ((init ''d/'' ''SRP'' 2 (PyBool False) False)\<lparr>radius := [1, 2]\<rparr>)
        [10, 20, 30] (NdArray [[1, 0], [0, 1], [0, 0]]) =
        Inr [[11, 20, 30], [12, 20, 30], [10, 21, 30], [10, 22, 30]]"
proof -
  let ?s = "(init ''d/'' ''SRP'' 2 (PyBool False) False)\<lparr>radius := [1, 2]\<rparr>"
  have h: "1 < num_sources ?s" "[[1, 0], [0, 1], [0, 0 :: real]] \<noteq> []"
    "\<forall>row\<in>set [[1, 0], [0, 1], [0, 0 :: real]]. length row = nat (num_sources ?s)"
    "length [10, 20, 30 :: real] = length [[1, 0], [0, 1], [0, 0 :: real]]"
    by (simp_all add: init_def)
  have n: "num_sources ?s = 2" "radius ?s = [1, 2]" by (simp_all add: init_def)
  from split_and_conquer_multi_source [OF h] obtain pts where
    p: "split_and_conquer ?s [10, 20, 30] (NdArray [[1, 0], [0, 1], [0, 0]]) = Inr pts"
    and "num_sources ?s = 2 \<longrightarrow>
            pts = map (\<lambda>r. map (\<lambda>j. r * [[1, 0], [0, 1], [0, 0 :: real]] ! j ! 0 + [10, 20, 30] ! j) [0..<length [[1, 0], [0, 1], [0, 0 :: real]]]) (radius ?s) @
                  map (\<lambda>r. map (\<lambda>j. r * [[1, 0], [0, 1], [0, 0 :: real]] ! j ! 1 + [10, 20, 30] ! j) [0..<length [[1, 0], [0, 1], [0, 0 :: real]]]) (radius ?s)"
    by blast
  with n have "pts = [[11, 20, 30], [12, 20, 30], [10, 21, 30], [10, 22, 30]]"
    by (simp add: upt_conv_Cons)
  with p h show ?thesis by simp
qed


lemma match_loop_props:
  "match_loop d args = (s, l) \<Longrightarrow>
     length s = length l \<and> (\<forall>x\<in>set l. \<exists>k y. (k, x, y) \<in> set d)"
proof (induction args arbitrary: s l)
  case Nil
  then show ?case by simp
next
  case (Cons arg args)
  obtain s' l' where r: "match_loop d args = (s', l')" by (cases "match_loop d args")
  from Cons.IH [OF r] have ih: "length s' = length l'" "\<forall>x\<in>set l'. \<exists>k y. (k, x, y) \<in> set d"
    by simp_all
  show ?case
  proof (cases arg)
    case None
    with Cons.prems r ih show ?thesis by simp
  next
    case (Some name)
    show ?thesis
    proof (cases "map_of d name")
      case None
      with Cons.prems r ih Some show ?thesis by simp
    next
      case (Some p)
      obtain loc sg where p: "p = (loc, sg)" by (cases p)
      from Some p have "(name, loc, sg) \<in> set d" by (simp add: map_of_SomeD)
      then have ex: "\<exists>k y. (k, loc, y) \<in> set d" by blast
      from Cons.prems r Some p \<open>arg = Some name\<close> have "s = sg # s'" "l = loc # l'"
        by simp_all
      with ih ex show ?thesis by simp
    qed
  qed
qed

lemma dict_locations:
  "(k, x, y) \<in> set (microphones_locations_and_signals_dict (zip create_microphone_locations_list data))
     \<Longrightarrow> x \<in> set create_microphone_locations_list"
proof -
  assume "(k, x, y) \<in> set (microphones_locations_and_signals_dict (zip create_microphone_locations_list data))"
  then obtain j where "j < length (zip create_microphone_locations_list data)"
    "(x, y) = zip create_microphone_locations_list data ! j"
    unfolding microphones_locations_and_signals_dict_def by auto
  then have "(x, y) \<in> set (zip create_microphone_locations_list data)"
    by (metis nth_mem)
  then show ?thesis by (rule set_zip_leftD)
qed

lemma matched_props:
  assumes "get_mic_match_with_sound_data data args = Inr (Matched s l)"
  shows "length s = length l \<and> (\<forall>x\<in>set l. length x = 3)"
proof -
  have m: "match_loop (microphones_locations_and_signals_dict (zip create_microphone_locations_list data)) args = (s, l)"
    using assms unfolding get_mic_match_with_sound_data_def
    by (auto simp: Let_def split: if_splits prod.splits)
  from match_loop_props [OF m] have a: "length s = length l"
    and b: "\<forall>x\<in>set l. \<exists>k y. (k, x, y) \<in> set (microphones_locations_and_signals_dict (zip create_microphone_locations_list data))"
    by simp_all
  have "\<forall>x\<in>set create_microphone_locations_list. length x = 3"
    unfolding locations_literal by simp
  with b dict_locations have "\<forall>x\<in>set l. length x = 3" by blast
  with a show ?thesis by simp
qed

lemma centroid_of_locations:
  assumes "l \<noteq> []" "\<forall>x\<in>set l. length x = 3"
  shows "get_centroid [map (\<lambda>x. Loc (map CFloat x)) l] =
           Inr (map (\<lambda>j. sum_list (map (\<lambda>x. x ! j) l) / real (length l)) [0..<3])"
proof -
  let ?g = "map (\<lambda>x. Loc (map CFloat x)) l"
  obtain x0 where x0: "x0 \<in> set l" using assms(1) by (cases l) auto
  then have "Loc (map CFloat x0) \<in> set ?g" "Loc (map CFloat x0) \<noteq> Loc []"
    using assms(2) by auto
  then have c1: "(\<forall>l\<in>set ?g. l = Loc []) = False" by blast
  have c2: "(LNone \<in> set ?g \<or> (\<exists>cs. Loc cs \<in> set ?g \<and> CNone \<in> set cs)) = False" by auto
  have c3: "(\<forall>l\<in>set ?g. \<forall>k\<in>set ?g. location_len l = location_len k) = True"
    using assms(2) by auto
  have c4: "(LNone \<notin> set ?g \<and> (\<forall>cs c. Loc cs \<in> set ?g \<and> c \<in> set cs \<longrightarrow> is_float c)) = True"
    by auto
  have h: "location_len (hd ?g) = 3" using assms by (cases l) auto
  have v: "\<And>j. map (\<lambda>l. location_vals l ! j) ?g = map (\<lambda>x. x ! j) l"
    by (simp add: comp_def)
  show ?thesis
    unfolding get_centroid_cases c1 c2 c3 c4 h v
    by (simp only: if_False not_True_eq_False length_map)
qed


lemma transpose_one_direction:
  "transpose (cartesian_coordinates [(az, colat)]) =
     [[cos az * sin colat, sin az * sin colat, cos colat]]"
  by (simp add: cartesian_coordinates_def)

lemma get_estimates_one_direction:
  assumes "\<not> 1 < num_sources self"
    and "mic_split \<noteq> []" "None \<notin> set mic_split"
    and "get_mic_match_with_sound_data data mic_split = Inr (Matched signal mic_locations)"
    and "difference_of_arrivals solve self signal mic_locations = Inr [(az, colat)]"
    and "c = map (\<lambda>j. sum_list (map (\<lambda>x. x ! j) mic_locations) / real (length mic_locations))
              [0..<3]"
  shows "get_centroid [map (\<lambda>x. Loc (map CFloat x)) mic_locations] = Inr c"
    and "get_estimates solve self (Some data) mic_split =
           Inr (map (\<lambda>r. [r * (cos az * sin colat) + c ! 0,
                            r * (sin az * sin colat) + c ! 1,
                            r * cos colat + c ! 2]) (radius self))"
proof -
  let ?pts = "map (\<lambda>r. [r * (cos az * sin colat) + c ! 0,
                         r * (sin az * sin colat) + c ! 1,
                         r * cos colat + c ! 2]) (radius self)"
  have "signal \<noteq> []"
    using assms(5) by (auto simp: difference_of_arrivals_def)
  moreover from matched_props [OF assms(4)]
  have len: "length signal = length mic_locations" and three: "\<forall>x\<in>set mic_locations. length x = 3"
    by simp_all
  ultimately have ne: "mic_locations \<noteq> []" by auto
  show cen: "get_centroid [map (\<lambda>x. Loc (map CFloat x)) mic_locations] = Inr c"
    unfolding assms(6) using ne three by (rule centroid_of_locations)
  have lc: "length c = 3" unfolding assms(6) by simp
  have sc: "scale_and_recenter self 3 c [[cos az * sin colat, sin az * sin colat, cos colat]] =
      Inr (map (\<lambda>r. map2 (+) (map ((*) r) [cos az * sin colat, sin az * sin colat, cos colat]) c)
               (radius self))"
    using lc by (rule scale_and_recenter_one)
  have c3: "c = [c ! 0, c ! 1, c ! 2]"
    unfolding assms(6) by (simp add: upt_conv_Cons)
  have "\<And>r. map2 (+) (map ((*) r) [cos az * sin colat, sin az * sin colat, cos colat]) c =
      [r * (cos az * sin colat) + c ! 0, r * (sin az * sin colat) + c ! 1, r * cos colat + c ! 2]"
    by (subst c3) simp
  with sc have sc': "scale_and_recenter self 3 c
      [[cos az * sin colat, sin az * sin colat, cos colat]] = Inr ?pts"
    by simp
  show "get_estimates solve self (Some data) mic_split = Inr ?pts"
    unfolding get_estimates_def
    using assms(1,2,3) by (simp add: assms(4,5) cen Let_def transpose_one_direction sc')
qed

text \<open>
  Claim C2. With one source, when the matching succeeds and the solver returns one pair
  (azimuth, co-latitude), \<^verbatim>\<open>get_estimates\<close> returns one point per radius: the radius
  times the unit vector of the direction, plus the centroid (the mean) of the matched
  microphone locations. For azimuth 0 and co-latitude \<open>\<pi>/2\<close> the unit vector is
  \<open>(1, 0, 0)\<close>. Floats are read as real numbers.
\<close>

theorem get_estimates_single_source:
  assumes "num_sources self = 1"
    and "mic_split \<noteq> []" "None \<notin> set mic_split"
    and "get_mic_match_with_sound_data data mic_split = Inr (Matched signal mic_locations)"
    and "difference_of_arrivals solve self signal mic_locations = Inr [(az, colat)]"
  shows "\<exists>c pts.
       get_centroid [map (\<lambda>x. Loc (map CFloat x)) mic_locations] = Inr c
     \<and> c = map (\<lambda>j. sum_list (map (\<lambda>x. x ! j) mic_locations) / real (length mic_locations))
              [0..<3]
     \<and> get_estimates solve self (Some data) mic_split = Inr pts
     \<and> length pts = length (radius self)
     \<and> pts = map (\<lambda>r. [r * (cos az * sin colat) + c ! 0,
                         r * (sin az * sin colat) + c ! 1,
                         r * cos colat + c ! 2]) (radius self)
     \<and> (az = 0 \<and> colat = pi / 2 \<longrightarrow>
          pts = map (\<lambda>r. [r * 1 + c ! 0, r * 0 + c ! 1, r * 0 + c ! 2]) (radius self))"
proof -
  let ?c = "map (\<lambda>j. sum_list (map (\<lambda>x. x ! j) mic_locations) / real (length mic_locations))
              [0..<3]"
  let ?pts = "map (\<lambda>r. [r * (cos az * sin colat) + ?c ! 0,
                         r * (sin az * sin colat) + ?c ! 1,
                         r * cos colat + ?c ! 2]) (radius self)"
  have n: "\<not> 1 < num_sources self" using assms(1) by simp
  note r = get_estimates_one_direction [OF n assms(2,3,4,5) refl]
  have cen: "get_centroid [map (\<lambda>x. Loc (map CFloat x)) mic_locations] = Inr ?c"
    by (rule r(1))
  have est: "get_estimates solve self (Some data) mic_split = Inr ?pts"
    by (rule r(2))
  have special: "az = 0 \<and> colat = pi / 2 \<longrightarrow>
      ?pts = map (\<lambda>r. [r * 1 + ?c ! 0, r * 0 + ?c ! 1, r * 0 + ?c ! 2]) (radius self)"
  proof
    assume h: "az = 0 \<and> colat = pi / 2"
    have "cos az = 1" "sin az = 0" "sin colat = 1" "cos colat = 0"
      unfolding conjunct1 [OF h] conjunct2 [OF h]
      by (rule cos_zero, rule sin_zero, rule sin_pi_half, rule cos_pi_half)
    then show "?pts = map (\<lambda>r. [r * 1 + ?c ! 0, r * 0 + ?c ! 1, r * 0 + ?c ! 2]) (radius self)"
      by simp
  qed
  have "length ?pts = length (radius self)" by simp
  with cen est special show ?thesis by blast
qed


lemma mic_index_eval_s1:
  "mic_index (Some ''mic2'') = Some 1" "mic_index (Some ''mic3'') = Some 2"
  "mic_index (Some ''mic6'') = Some 5"
  unfolding mic_index_def option.case mic_names_literal
  by (simp_all add: upt_conv_Cons del: upt_Suc)

lemma example_match:
  "get_mic_match_with_sound_data example_data [Some ''mic2'', Some ''mic3'', Some ''mic6''] =
     Inr (Matched [RSig [2], RSig [3], RSig [6]]
            [[- 0.102235, - 0.109982, 0.001524], [- 0.102235, - 0.109982, - 0.053340],
             [- 0.052197, - 0.109982, 0.001524]])"
proof -
  have a: "length example_data = 12" "RNone \<notin> set example_data" "RStr [] \<notin> set example_data"
    by (simp_all add: example_data_def)
  have b: "[Some ''mic2'', Some ''mic3'', Some ''mic6''] \<noteq> []" by simp
  have c: "List.map_filter mic_index [Some ''mic2'', Some ''mic3'', Some ''mic6''] = [1, 2, 5]"
    by (simp add: List.map_filter_simps mic_index_eval_s1)
  show ?thesis
    unfolding matched_12 [OF a b] c by (simp add: locations_literal example_data_def)
qed

theorem get_estimates_single_source_witness:
  "num_sources ((init ''d/'' ''SRP'' 1 (PyBool False) False)\<lparr>radius := [0, 1 / 2]\<rparr>) = 1
   \<and> [Some ''mic2'', Some ''mic3'', Some ''mic6''] \<noteq> []
   \<and> None \<notin> set [Some ''mic2'', Some ''mic3'', Some ''mic6'']
   \<and> get_mic_match_with_sound_data example_data [Some ''mic2'', Some ''mic3'', Some ''mic6''] =
       Inr (Matched [RSig [2], RSig [3], RSig [6]]
            [[- 0.102235, - 0.109982, 0.001524], [- 0.102235, - 0.109982, - 0.053340],
             [- 0.052197, - 0.109982, 0.001524]])
   \<and> difference_of_arrivals (\<lambda>s x m. Inr [(0, pi / 2)])
        ((init ''d/'' ''SRP'' 1 (PyBool False) False)\<lparr>radius := [0, 1 / 2]\<rparr>)
        [RSig [2], RSig [3], RSig [6]]
        [[- 0.102235, - 0.109982, 0.001524], [- 0.102235, - 0.109982, - 0.053340],
         [- 0.052197, - 0.109982, 0.001524]] = Inr [(0, pi / 2)]
   \<and> get_estimates (\<lambda>s x m. Inr [(0, pi / 2)])
        ((init ''d/'' ''SRP'' 1 (PyBool False) False)\<lparr>radius := [0, 1 / 2]\<rparr>)
        (Some example_data) [Some ''mic2'', Some ''mic3'', Some ''mic6''] =
       Inr [[- 256667 / 3000000, - 0.109982, - 0.016764],
            [1243333 / 3000000, - 0.109982, - 0.016764]]"
proof -
  let ?s = "(init ''d/'' ''SRP'' 1 (PyBool False) False)\<lparr>radius := [0, 1 / 2]\<rparr>"
  let ?l = "[[- 0.102235, - 0.109982, 0.001524], [- 0.102235, - 0.109982, - 0.053340],
             [- 0.052197, - 0.109982, 0.001524 :: real]]"
  have h1: "num_sources ?s = 1" by (simp add: init_def)
  have h2: "[Some ''mic2'', Some ''mic3'', Some ''mic6''] \<noteq> []"
    "None \<notin> set [Some ''mic2'', Some ''mic3'', Some ''mic6'']" by simp_all
  have h4: "difference_of_arrivals (\<lambda>s x m. Inr [(0, pi / 2)]) ?s [RSig [2], RSig [3], RSig [6]] ?l
      = Inr [(0, pi / 2)]"
    by (simp add: difference_of_arrivals_def)
  have r: "radius ?s = [0, 1 / 2]" by (simp add: init_def)
  from get_estimates_single_source [OF h1 h2 example_match h4]
  obtain c pts where
    c: "c = map (\<lambda>j. sum_list (map (\<lambda>x. x ! j) ?l) / real (length ?l)) [0..<3]"
    and e: "get_estimates (\<lambda>s x m. Inr [(0, pi / 2)]) ?s (Some example_data)
             [Some ''mic2'', Some ''mic3'', Some ''mic6''] = Inr pts"
    and p: "(0::real) = 0 \<and> pi / 2 = pi / 2 \<longrightarrow>
          pts = map (\<lambda>r. [r * 1 + c ! 0, r * 0 + c ! 1, r * 0 + c ! 2]) (radius ?s)"
    by blast
  from c have c': "c = [- 256667 / 3000000, - 0.109982, - 0.016764]"
    by (simp add: upt_conv_Cons)
  from p have "pts = map (\<lambda>r. [r * 1 + c ! 0, r * 0 + c ! 1, r * 0 + c ! 2]) (radius ?s)"
    by simp
  then have "pts = [[- 256667 / 3000000, - 0.109982, - 0.016764],
            [1243333 / 3000000, - 0.109982, - 0.016764]]"
    unfolding r c' by simp
  with e h1 h2 example_match h4 show ?thesis by simp
qed

subsection \<open>Scheduling the subsets\<close>

lemma s1_mics_literal: "s1_mics = [''mic2'', ''mic3'', ''mic6'', ''mic7'', ''mic10'', ''mic11'']"
  unfolding s1_mics_def by code_simp

lemma s2_mics_literal: "s2_mics = [''mic1'', ''mic2'', ''mic5'', ''mic6'', ''mic9'', ''mic10'']"
  unfolding s2_mics_def by code_simp

lemma combinations_6_3:
  "combinations [a, b, c, d, e, f] 3 =
     [[a, b, c], [a, b, d], [a, b, e], [a, b, f], [a, c, d], [a, c, e], [a, c, f], [a, d, e],
      [a, d, f], [a, e, f], [b, c, d], [b, c, e], [b, c, f], [b, d, e], [b, d, f], [b, e, f],
      [c, d, e], [c, d, f], [c, e, f], [d, e, f]]"
  by (simp add: numeral_3_eq_3)

lemma dispatch_20:
  "dispatch_order (mic_split_list [x0, x1, x2, x3, x4, x5, x6, x7, x8, x9, x10, x11, x12, x13, x14, x15, x16, x17, x18, x19] 4) 4 =
   [x0, x4, x8, x12, x16, x1, x5, x9, x13, x17, x2, x6, x10, x14, x18, x3, x7, x11, x15, x19]"
  by (simp add: dispatch_order_def mic_split_list_def upt_conv_Cons)

lemma distinct_sets_s1: "distinct (map set (combinations s1_mics 3))"
  unfolding s1_mics_literal combinations_6_3 by code_simp


lemma combinations_map: "combinations (map f xs) r = map (map f) (combinations xs r)"
  by (induction xs r rule: combinations.induct) simp_all

lemma example_data_sig: "j < 12 \<Longrightarrow> is_sig (example_data ! j)"
proof -
  assume "j < 12"
  then have "example_data ! j \<in> set example_data"
    by (intro nth_mem) (simp add: example_data_def)
  moreover have "\<forall>r\<in>set example_data. is_sig r"
    by (simp add: example_data_def)
  ultimately show ?thesis by blast
qed

lemma example_data_one_sample: "j < 12 \<Longrightarrow> length (sig_vals (example_data ! j)) = 1"
proof -
  assume "j < 12"
  then have "example_data ! j \<in> set example_data"
    by (intro nth_mem) (simp add: example_data_def)
  moreover have "\<forall>r\<in>set example_data. length (sig_vals r) = 1"
    by (simp add: example_data_def)
  ultimately show ?thesis by blast
qed

lemma location_three: "j < 12 \<Longrightarrow> length (create_microphone_locations_list ! j) = 3"
proof -
  assume "j < 12"
  then have "create_microphone_locations_list ! j \<in> set create_microphone_locations_list"
    by (intro nth_mem) (simp add: length_locations)
  moreover have "\<forall>x\<in>set create_microphone_locations_list. length x = 3"
    by (simp add: create_microphone_locations_list_def)
  ultimately show ?thesis by blast
qed

lemma get_estimates_example:
  assumes "\<not> 1 < num_sources self" "radius self = [1]"
    and "js \<noteq> []" "\<forall>j\<in>set js. j < 12"
    and "c = map (\<lambda>j. sum_list (map (\<lambda>x. x ! j) (map (\<lambda>j. create_microphone_locations_list ! j) js))
                         / real (length js)) [0..<3]"
  shows "get_estimates example_solver self (Some example_data)
           (map (\<lambda>j. Some (''mic'' @ str_nat (j + 1))) js) = Inr [[c ! 0, c ! 1, 1 + c ! 2]]"
proof -
  let ?args = "map (\<lambda>j. Some (''mic'' @ str_nat (j + 1))) js"
  have a: "length example_data = 12" "RNone \<notin> set example_data" "RStr [] \<notin> set example_data"
    by (simp_all add: example_data_def)
  have b: "?args \<noteq> []" "None \<notin> set ?args" using assms(3) by auto
  have m: "get_mic_match_with_sound_data example_data ?args =
      Inr (Matched (map (\<lambda>j. example_data ! j) js) (map (\<lambda>j. create_microphone_locations_list ! j) js))"
    using matched_12 [OF a b(1)] unfolding map_filter_known [OF assms(4)] .
  have sg: "list_all is_sig (map (\<lambda>j. example_data ! j) js)"
    using assms(4) by (simp add: list_all_iff example_data_sig)
  then have nn: "RNone \<notin> set (map (\<lambda>j. example_data ! j) js)"
    by (auto simp: list_all_iff)
  have one: "\<not> 1 < length (sig_vals (hd (map (\<lambda>j. example_data ! j) js)))"
  proof -
    have "hd js \<in> set js" using assms(3) by simp
    then have "hd js < 12" using assms(4) by blast
    then have "length (sig_vals (example_data ! hd js)) = 1" by (rule example_data_one_sample)
    then show ?thesis using assms(3) by (simp add: hd_map)
  qed
  have ne: "map (\<lambda>j. create_microphone_locations_list ! j) js \<noteq> []" using assms(3) by simp
  have three: "list_all (\<lambda>l. length l = length (hd (map (\<lambda>j. create_microphone_locations_list ! j) js)))
      (map (\<lambda>j. create_microphone_locations_list ! j) js)"
  proof -
    have "\<forall>j\<in>set js. length (create_microphone_locations_list ! j) = 3"
      using assms(4) by (auto intro: location_three)
    moreover have "hd js \<in> set js" using assms(3) by simp
    ultimately show ?thesis using assms(3) by (simp add: list_all_iff hd_map)
  qed
  have d: "difference_of_arrivals example_solver self (map (\<lambda>j. example_data ! j) js)
      (map (\<lambda>j. create_microphone_locations_list ! j) js) = Inr [(0, 0)]"
    unfolding difference_of_arrivals_def using assms(3) sg nn one ne three
    by (simp add: example_solver_def)
  note n = assms(1)
  have c': "c = map (\<lambda>j. sum_list (map (\<lambda>x. x ! j) (map (\<lambda>j. create_microphone_locations_list ! j) js))
                  / real (length (map (\<lambda>j. create_microphone_locations_list ! j) js))) [0..<3]"
    using assms(5) by simp
  from get_estimates_one_direction(2) [OF n b m d c']
  show ?thesis by (simp add: assms(2))
qed


lemma combinations_length: "s \<in> set (combinations xs r) \<Longrightarrow> length s = r"
  by (induction xs r arbitrary: s rule: combinations.induct) auto

lemma combinations_subset: "s \<in> set (combinations xs r) \<Longrightarrow> set s \<subseteq> set xs"
proof (induction xs r arbitrary: s rule: combinations.induct)
  case (1 xs)
  then show ?case by simp
next
  case (2 r)
  then show ?case by simp
next
  case (3 x xs r)
  from "3.prems" consider t where "s = x # t" "t \<in> set (combinations xs r)"
    | "s \<in> set (combinations xs (Suc r))"
    by auto
  then show ?case
  proof cases
    case 1
    with "3.IH"(1) [of t] show ?thesis by auto
  next
    case 2
    with "3.IH"(2) [of s] show ?thesis by auto
  qed
qed

lemma mic_names_nth: "j < 12 \<Longrightarrow> mic_names ! j = ''mic'' @ str_nat (j + 1)"
  unfolding mic_names_def by simp

lemma names_of_positions:
  "\<forall>j\<in>set js. j < 12 \<Longrightarrow>
     map (\<lambda>j. Some (mic_names ! j)) js = map (\<lambda>j. Some (''mic'' @ str_nat (j + 1))) js"
  by (simp add: mic_names_nth)

lemma dispatch_order_index:
  assumes "0 < k" "5 * k \<le> length ml"
  shows "dispatch_order (mic_split_list ml k) k =
           concat (map (\<lambda>j. map (\<lambda>b. ml ! (b * k + j)) [0..<5]) [0..<k])"
proof -
  have "5 * k div k \<le> (length ml + k - 1) div k"
    using assms by (intro div_le_mono) simp
  then have n: "5 \<le> (length ml + k - 1) div k" using assms(1) by simp
  have e: "mic_split_list ml k ! b ! j = ml ! (b * k + j)" if "b < 5" "j < k" for b j
  proof -
    have "mic_split_list ml k ! b = take k (drop (b * k) ml)"
      unfolding mic_split_list_def using that(1) n by simp
    moreover have "b * k + j < length ml"
    proof -
      have "b * k + j < (b + 1) * k" using that(2) by simp
      also have "\<dots> \<le> 5 * k" using that(1) by (intro mult_le_mono1) simp
      finally show ?thesis using assms(2) by simp
    qed
    ultimately show ?thesis using that(2) by simp
  qed
  show ?thesis
    unfolding dispatch_order_def
    by (intro arg_cong [where f = concat] map_cong refl) (simp add: e)
qed

lemma process_mic_list_eq:
  assumes "5 \<le> length ml"
    and "\<forall>j<length ml div 5. \<forall>b<5.
           get_estimates solve self data (map Some (ml ! (b * (length ml div 5) + j))) =
             Inr (est (ml ! (b * (length ml div 5) + j)))"
    and "\<forall>j<length ml div 5. \<forall>b<5. length (est (ml ! (b * (length ml div 5) + j))) = n"
  shows "process_mic_list solve self data ml =
           Inr (map (\<lambda>p. map2 (+) center_of_room p)
                 (concat (map est
                    (concat (map (\<lambda>j. map (\<lambda>b. ml ! (b * (length ml div 5) + j)) [0..<5])
                                 [0..<length ml div 5])))))"
proof -
  let ?k = "length ml div 5"
  let ?order = "concat (map (\<lambda>j. map (\<lambda>b. ml ! (b * ?k + j)) [0..<5]) [0..<?k])"
  have k: "0 < ?k" using assms(1) by simp
  have "5 * ?k \<le> length ml" by simp
  from dispatch_order_index [OF k this]
  have d: "dispatch_order (mic_split_list ml ?k) ?k = ?order" .
  have m: "map_err (\<lambda>mic_split. get_estimates solve self data (map Some mic_split)) ?order =
      Inr (map est ?order)"
    by (rule map_err_all_ok) (use assms(2) in auto)
  have ne: "map est ?order \<noteq> []" using k by (auto simp: upt_conv_Cons)
  have al: "\<forall>e\<in>set (map est ?order). length e = n" using assms(3) by auto
  have r: "reshape_outputs (map est ?order) = Inr (concat (map est ?order))"
  proof (cases "map est ?order")
    case Nil
    with ne show ?thesis by simp
  next
    case (Cons a as)
    with al have "length a = n" "\<forall>b\<in>set as. length b = n" by auto
    then show ?thesis
      unfolding reshape_outputs_def Cons by (simp add: list_all_iff)
  qed
  show ?thesis
    unfolding process_mic_list_def Let_def d using k by (simp add: m r)
qed


lemma combinations_distinct:
  "distinct xs \<Longrightarrow> s \<in> set (combinations xs r) \<Longrightarrow> distinct s"
proof (induction xs r arbitrary: s rule: combinations.induct)
  case (1 xs)
  then show ?case by simp
next
  case (2 r)
  then show ?case by simp
next
  case (3 x xs r)
  from "3.prems"(2) consider t where "s = x # t" "t \<in> set (combinations xs r)"
    | "s \<in> set (combinations xs (Suc r))"
    by auto
  then show ?case
  proof cases
    case 1
    from "3.prems"(1) have dx: "distinct xs" and nx: "x \<notin> set xs" by simp_all
    from "3.IH"(1) [OF dx 1(2)] have "distinct t" .
    moreover from combinations_subset [OF 1(2)] nx have "x \<notin> set t" by blast
    ultimately show ?thesis using 1(1) by simp
  next
    case 2
    from "3.prems"(1) have dx: "distinct xs" by simp
    from "3.IH"(2) [OF dx 2] show ?thesis .
  qed
qed

lemma distinct_sets_s2: "distinct (map set (combinations s2_mics 3))"
  unfolding s2_mics_literal combinations_6_3 by code_simp

lemma pool_facts:
  assumes "mics = s1_mics \<or> mics = s2_mics"
  shows "length (combinations mics 3) = 20"
    and "distinct (map set (combinations mics 3))"
    and "\<forall>s\<in>set (combinations mics 3). card (set s) = 3 \<and> set s \<subseteq> set mics"
proof -
  show "length (combinations mics 3) = 20"
    using assms unfolding s1_mics_literal s2_mics_literal by (auto simp: combinations_6_3)
  show "distinct (map set (combinations mics 3))"
    using assms distinct_sets_s1 distinct_sets_s2 by blast
  have d: "distinct mics"
    using assms unfolding s1_mics_literal s2_mics_literal by auto
  show "\<forall>s\<in>set (combinations mics 3). card (set s) = 3 \<and> set s \<subseteq> set mics"
  proof
    fix s assume s: "s \<in> set (combinations mics 3)"
    have "distinct s"
      using d s by (rule combinations_distinct)
    then have "card (set s) = length s" by (rule distinct_card)
    with combinations_length [OF s] combinations_subset [OF s]
    show "card (set s) = 3 \<and> set s \<subseteq> set mics" by simp
  qed
qed

text \<open>
  Claim C4. With \<^verbatim>\<open>combinations_number = 3\<close>, \<^verbatim>\<open>process_potential_estimates\<close> enumerates
  20 subsets of the selected pool of six microphones, pairwise distinct as sets and each
  of three microphones of the pool. When every subset has an estimate array (all of the
  same number of rows), the result is these arrays one after the other, in the order of
  the four rounds and, within a round, of the five batches (batch \<open>b\<close> holds the subsets
  \<open>4b .. 4b+3\<close>), with the room centre \<open>[0.34925, 0.219964, 0.2413] / 2\<close> added to every
  point. The five workers of a round are joined in order. Floats are read as real numbers.
\<close>

theorem process_potential_estimates_schedule:
  assumes "combinations_number self = 3"
    and "mics = (if s1_bool self then s1_mics else s2_mics)"
    and "\<forall>s\<in>set (combinations mics 3). get_estimates solve self data (map Some s) = Inr (est s)"
    and "\<forall>s\<in>set (combinations mics 3). length (est s) = n"
  shows "length (combinations mics 3) = 20
     \<and> distinct (map set (combinations mics 3))
     \<and> (\<forall>s\<in>set (combinations mics 3). card (set s) = 3 \<and> set s \<subseteq> set mics)
     \<and> process_potential_estimates solve self data =
         Inr (map (\<lambda>p. map2 (+) [0.34925 / 2, 0.219964 / 2, 0.2413 / 2] p)
               (concat (map est
                  (concat (map (\<lambda>round. map (\<lambda>batch. combinations mics 3 ! (batch * 4 + round))
                                              [0..<5])
                               [0..<4])))))"
proof -
  let ?ml = "combinations mics 3"
  have p: "mics = s1_mics \<or> mics = s2_mics" using assms(2) by simp
  note f = pool_facts [OF p]
  have l: "length ?ml div 5 = 4" "5 \<le> length ?ml" using f(1) by simp_all
  have mem: "?ml ! (b * 4 + j) \<in> set ?ml" if "j < 4" "b < 5" for b j
  proof -
    have "b * 4 + j < 20" using that by simp
    then show ?thesis using f(1) by simp
  qed
  have ok: "\<forall>j<length ?ml div 5. \<forall>b<5.
      get_estimates solve self data (map Some (?ml ! (b * (length ?ml div 5) + j))) =
        Inr (est (?ml ! (b * (length ?ml div 5) + j)))"
    unfolding l using assms(3) mem by blast
  have sm: "\<forall>j<length ?ml div 5. \<forall>b<5. length (est (?ml ! (b * (length ?ml div 5) + j))) = n"
    unfolding l using assms(4) mem by blast
  have c: "center_of_room = [0.34925 / 2, 0.219964 / 2, 0.2413 / 2]"
    by (simp add: center_of_room_def)
  have "process_potential_estimates solve self data = process_mic_list solve self data ?ml"
    unfolding process_potential_estimates_def using assms(1,2) by (simp add: Let_def)
  also note process_mic_list_eq [OF l(2) ok sm]
  finally have "process_potential_estimates solve self data =
         Inr (map (\<lambda>p. map2 (+) [0.34925 / 2, 0.219964 / 2, 0.2413 / 2] p)
               (concat (map est
                  (concat (map (\<lambda>round. map (\<lambda>batch. ?ml ! (batch * 4 + round)) [0..<5])
                               [0..<4])))))"
    unfolding l c .
  with f show ?thesis by blast
qed


lemma pool_positions:
  "s1_mics = map (\<lambda>j. mic_names ! j) [1, 2, 5, 6, 9, 10]"
  "s2_mics = map (\<lambda>j. mic_names ! j) [0, 1, 4, 5, 8, 9]"
  by (simp_all add: s1_mics_literal s2_mics_literal mic_names_literal)

lemma get_estimates_example_names:
  assumes "\<not> 1 < num_sources self" "radius self = [1]"
    and "s \<in> set (combinations pool r)" "0 < r" "pool = s1_mics \<or> pool = s2_mics"
  shows "get_estimates example_solver self (Some example_data) (map Some s) = Inr (example_est s)"
proof -
  from assms(5) obtain ps where ps: "pool = map (\<lambda>j. mic_names ! j) ps" "\<forall>j\<in>set ps. j < 12"
    using pool_positions by fastforce
  from assms(3) obtain js where js: "s = map (\<lambda>j. mic_names ! j) js" "js \<in> set (combinations ps r)"
    unfolding ps(1) combinations_map by auto
  from combinations_length [OF js(2)] assms(4) have ne: "js \<noteq> []" by auto
  from combinations_subset [OF js(2)] ps(2) have lt: "\<forall>j\<in>set js. j < 12" by blast
  have args: "map Some s = map (\<lambda>j. Some (''mic'' @ str_nat (j + 1))) js"
    unfolding js(1) using names_of_positions [OF lt] by simp
  have mf: "List.map_filter mic_index (map Some s) = js"
    unfolding args by (rule map_filter_known [OF lt])
  show ?thesis
    unfolding example_est_def mf Let_def
    unfolding args
    by (rule get_estimates_example [OF assms(1,2) ne lt]) simp
qed


lemma example_object_facts:
  "combinations_number example_object = 3" "s1_bool example_object"
  "\<not> 1 < num_sources example_object" "radius example_object = [1]"
  by (simp_all add: example_object_def init_def)

theorem process_potential_estimates_schedule_witness:
  "combinations_number example_object = 3
   \<and> s1_mics = (if s1_bool example_object then s1_mics else s2_mics)
   \<and> list_all (\<lambda>s. get_estimates example_solver example_object (Some example_data)
                       (map Some s) = Inr (example_est s))
         (combinations s1_mics 3)
   \<and> list_all (\<lambda>s. length (example_est s) = 1) (combinations s1_mics 3)
   \<and> length (combinations s1_mics 3) = 20
   \<and> process_potential_estimates example_solver example_object (Some example_data) =
         Inr (map (\<lambda>p. map2 (+) [0.34925 / 2, 0.219964 / 2, 0.2413 / 2] p)
               (concat (map example_est
                  (concat (map (\<lambda>round. map (\<lambda>batch. combinations s1_mics 3 ! (batch * 4 + round))
                                              [0..<5])
                               [0..<4])))))"
proof -
  have h1: "combinations_number example_object = 3" by (rule example_object_facts)
  have h2: "s1_mics = (if s1_bool example_object then s1_mics else s2_mics)"
    by (simp add: example_object_facts)
  have h3: "\<forall>s\<in>set (combinations s1_mics 3).
         get_estimates example_solver example_object (Some example_data) (map Some s) =
           Inr (example_est s)"
    by (intro ballI get_estimates_example_names [where pool = s1_mics and r = 3])
       (simp_all add: example_object_facts)
  have h4: "\<forall>s\<in>set (combinations s1_mics 3). length (example_est s) = 1"
    by (simp add: example_est_def Let_def)
  from process_potential_estimates_schedule [OF h1 h2 h3 h4] h1 h2 h3 h4
  show ?thesis unfolding list_all_iff by blast
qed

lemma combinations_1: "combinations xs (Suc 0) = map (\<lambda>x. [x]) xs"
  by (induction xs) simp_all

lemma six_singletons:
  "combinations s1_mics 1 =
     [[''mic2''], [''mic3''], [''mic6''], [''mic7''], [''mic10''], [''mic11'']]"
  "combinations s1_mics (Suc 0) =
     [[''mic2''], [''mic3''], [''mic6''], [''mic7''], [''mic10''], [''mic11'']]"
  by (simp_all add: combinations_1 s1_mics_literal)

lemma mic_index_literal:
  "mic_index (Some ''mic2'') = Some 1" "mic_index (Some ''mic3'') = Some 2"
  "mic_index (Some ''mic6'') = Some 5" "mic_index (Some ''mic7'') = Some 6"
  "mic_index (Some ''mic10'') = Some 9" "mic_index (Some ''mic11'') = Some 10"
  unfolding mic_index_def option.case mic_names_literal
  by (simp_all add: upt_conv_Cons del: upt_Suc)

lemma example_est_singletons:
  "example_est [''mic2''] = [[- 0.102235, - 0.109982, 1.001524]]"
  "example_est [''mic3''] = [[- 0.102235, - 0.109982, 0.946660]]"
  "example_est [''mic6''] = [[- 0.052197, - 0.109982, 1.001524]]"
  "example_est [''mic7''] = [[- 0.052197, - 0.109982, 0.946660]]"
  "example_est [''mic10''] = [[- 0.027304, - 0.109982, 1.001524]]"
  "example_est [''mic11''] = [[- 0.027304, - 0.109982, 0.946660]]"
  by (simp_all add: example_est_def List.map_filter_simps mic_index_literal locations_literal
        upt_conv_Cons)

text \<open>
  Claim C5. A list of subsets whose length is not a multiple of five should make
  \<^verbatim>\<open>process_potential_estimates\<close> fail with an error. It does not. With
  \<^verbatim>\<open>combinations_number = 1\<close> the S1 pool gives six subsets; the chunk list built from
  them holds all six, one in each chunk; the rounds dispatch the chunks 0 to 4 only; and the
  call returns the five points of the first five subsets without any error. The subset
  \<^verbatim>\<open>mic11\<close> is left out, although \<^verbatim>\<open>get_estimates\<close> has an estimate for it and the
  documentation of the method promises the estimates for all the microphone combinations.
\<close>

theorem remainder_subset_dropped:
  "combinations s1_mics 1 =
     [[''mic2''], [''mic3''], [''mic6''], [''mic7''], [''mic10''], [''mic11'']]
   \<and> \<not> 5 dvd length (combinations s1_mics 1)
   \<and> mic_split_list (combinations s1_mics 1) (length (combinations s1_mics 1) div 5) =
       [[[''mic2'']], [[''mic3'']], [[''mic6'']], [[''mic7'']], [[''mic10'']], [[''mic11'']]]
   \<and> dispatch_order
        (mic_split_list (combinations s1_mics 1) (length (combinations s1_mics 1) div 5))
        (length (combinations s1_mics 1) div 5) =
       [[''mic2''], [''mic3''], [''mic6''], [''mic7''], [''mic10'']]
   \<and> get_estimates example_solver (example_object\<lparr>combinations_number := 1\<rparr>)
        (Some example_data) [Some ''mic11''] =
       Inr [[- 0.027304, - 0.109982, 0.946660]]
   \<and> process_potential_estimates example_solver (example_object\<lparr>combinations_number := 1\<rparr>)
        (Some example_data) =
       Inr [[0.07239, 0, 1.122174], [0.07239, 0, 1.06731], [0.122428, 0, 1.122174],
            [0.122428, 0, 1.06731], [0.147321, 0, 1.122174]]"
proof -
  let ?self = "example_object\<lparr>combinations_number := 1\<rparr>"
  let ?ml = "combinations s1_mics 1"
  have f: "\<not> 1 < num_sources ?self" "radius ?self = [1]" "s1_bool ?self"
    "combinations_number ?self = 1"
    by (simp_all add: example_object_def init_def)
  have l: "length ?ml = 6" by (simp add: six_singletons)
  then have k: "length ?ml div 5 = 1" "5 \<le> length ?ml" by simp_all
  have ok: "\<forall>j<length ?ml div 5. \<forall>b<5.
      get_estimates example_solver ?self (Some example_data)
        (map Some (?ml ! (b * (length ?ml div 5) + j))) =
        Inr (example_est (?ml ! (b * (length ?ml div 5) + j)))"
  proof (intro allI impI)
    fix j b assume "j < length ?ml div 5" "b < (5::nat)"
    then have "b * (length ?ml div 5) + j < length ?ml" using k(1) l by simp
    then have "?ml ! (b * (length ?ml div 5) + j) \<in> set ?ml" by (rule nth_mem)
    then show "get_estimates example_solver ?self (Some example_data)
        (map Some (?ml ! (b * (length ?ml div 5) + j))) =
        Inr (example_est (?ml ! (b * (length ?ml div 5) + j)))"
      by (intro get_estimates_example_names [where pool = s1_mics and r = 1] f) simp_all
  qed
  have sm: "\<forall>j<length ?ml div 5. \<forall>b<5.
      length (example_est (?ml ! (b * (length ?ml div 5) + j))) = 1"
    by (simp add: example_est_def Let_def)
  have "process_potential_estimates example_solver ?self (Some example_data) =
      process_mic_list example_solver ?self (Some example_data) ?ml"
    unfolding process_potential_estimates_def using f by (simp add: Let_def)
  also note process_mic_list_eq [OF k(2) ok sm]
  also have "concat (map (\<lambda>j. map (\<lambda>b. ?ml ! (b * (length ?ml div 5) + j)) [0..<5])
                         [0..<length ?ml div 5]) =
      [[''mic2''], [''mic3''], [''mic6''], [''mic7''], [''mic10'']]"
    unfolding k(1) by (simp add: six_singletons upt_conv_Cons)
  finally have "process_potential_estimates example_solver ?self (Some example_data) =
      Inr (map (\<lambda>p. map2 (+) center_of_room p)
            (concat (map example_est [[''mic2''], [''mic3''], [''mic6''], [''mic7''], [''mic10'']])))" .
  then have "process_potential_estimates example_solver ?self (Some example_data) =
       Inr [[0.07239, 0, 1.122174], [0.07239, 0, 1.06731], [0.122428, 0, 1.122174],
            [0.122428, 0, 1.06731], [0.147321, 0, 1.122174]]"
    by (simp add: example_est_singletons center_of_room_def)
  note r = this
  have d: "\<not> 5 dvd length ?ml" unfolding l by simp
  have c1: "mic_split_list ?ml 1 =
      [[[''mic2'']], [[''mic3'']], [[''mic6'']], [[''mic7'']], [[''mic10'']], [[''mic11'']]]"
    by (simp add: mic_split_list_def six_singletons upt_conv_Cons)
  have c: "mic_split_list ?ml (length ?ml div 5) =
      [[[''mic2'']], [[''mic3'']], [[''mic6'']], [[''mic7'']], [[''mic10'']], [[''mic11'']]]"
    unfolding k(1) by (rule c1)
  have o1: "dispatch_order
      [[[''mic2'']], [[''mic3'']], [[''mic6'']], [[''mic7'']], [[''mic10'']], [[''mic11'']]] 1 =
      [[''mic2''], [''mic3''], [''mic6''], [''mic7''], [''mic10'']]"
    by (simp add: dispatch_order_def upt_conv_Cons)
  have o: "dispatch_order (mic_split_list ?ml (length ?ml div 5)) (length ?ml div 5) =
      [[''mic2''], [''mic3''], [''mic6''], [''mic7''], [''mic10'']]"
    unfolding k(1) c1 by (rule o1)
  have "[''mic11''] \<in> set ?ml" by (simp add: six_singletons)
  then have "get_estimates example_solver ?self (Some example_data) (map Some [''mic11'']) =
      Inr (example_est [''mic11''])"
    by (intro get_estimates_example_names [where pool = s1_mics and r = 1] f) simp_all
  then have g: "get_estimates example_solver ?self (Some example_data) [Some ''mic11''] =
      Inr [[- 0.027304, - 0.109982, 0.946660]]"
    by (simp add: example_est_singletons)
  from six_singletons(1) d c o g r show ?thesis by (intro conjI)
qed

subsection \<open>Running the generator twice\<close>

lemma process_example:
  assumes "combinations_number self = 3" "\<not> 1 < num_sources self" "radius self = [1]"
  shows "process_potential_estimates example_solver self (Some example_data) =
           Inr (example_points (if s1_bool self then s1_mics else s2_mics))"
proof -
  let ?mics = "if s1_bool self then s1_mics else s2_mics"
  let ?ml = "combinations ?mics 3"
  have p: "?mics = s1_mics \<or> ?mics = s2_mics" by simp
  note f = pool_facts [OF p]
  have l: "length ?ml div 5 = 4" "5 \<le> length ?ml" using f(1) by simp_all
  have mem: "?ml ! (b * 4 + j) \<in> set ?ml" if "j < 4" "b < 5" for b j
  proof -
    have "b * 4 + j < 20" using that by simp
    then show ?thesis using f(1) by simp
  qed
  have g: "get_estimates example_solver self (Some example_data) (map Some s) = Inr (example_est s)"
    if "s \<in> set ?ml" for s
    using assms(2,3) that _ p by (rule get_estimates_example_names) simp
  have ok: "\<forall>j<length ?ml div 5. \<forall>b<5.
      get_estimates example_solver self (Some example_data)
         (map Some (?ml ! (b * (length ?ml div 5) + j))) =
        Inr (example_est (?ml ! (b * (length ?ml div 5) + j)))"
    unfolding l using g mem by blast
  have sm: "\<forall>j<length ?ml div 5. \<forall>b<5.
      length (example_est (?ml ! (b * (length ?ml div 5) + j))) = 1"
    by (simp add: example_est_def Let_def)
  have d: "dispatch_order (mic_split_list ?ml 4) 4 =
      concat (map (\<lambda>j. map (\<lambda>b. ?ml ! (b * 4 + j)) [0..<5]) [0..<4])"
    by (rule dispatch_order_index) (simp_all add: f(1))
  have "process_potential_estimates example_solver self (Some example_data) =
      process_mic_list example_solver self (Some example_data) ?ml"
    unfolding process_potential_estimates_def using assms(1) by (simp add: Let_def)
  also note process_mic_list_eq [OF l(2) ok sm]
  finally show ?thesis
    unfolding l example_points_def d .
qed

lemma sound_list_keys: "sound_list = map fst (source_name_dict rec)"
  unfolding keys_map sound_list_def
  by (simp add: cycle_key_def [abs_def] comp_def)

lemma sound_list_split:
  "sound_list = s1_names @ s2_names"
proof -
  have b: "str_nat 1 = ''1''" "str_nat 2 = ''2''"
    by code_simp+
  show ?thesis
    unfolding sound_list_def s2_names_def s1_names_def upt_1_3
    by (simp add: b comp_def del: upt_Suc One_nat_def)
qed

lemma s1_names_not_s2: "n \<in> set s1_names \<Longrightarrow> n \<notin> set s2_names"
  by (auto simp: s2_names_def s1_names_def simp del: upt_Suc)

lemma get_sound_data_example:
  assumes "recovered self = PyBool rec" "n \<in> set sound_list"
  shows "get_sound_data example_loadmat self n = Inr (Some example_data)"
proof -
  from assms(2) have "n \<in> fst ` set (source_name_dict rec)"
    unfolding sound_list_keys [of rec] by simp
  then obtain pv where "map_of (source_name_dict rec) n = Some pv"
    using map_of_eq_None_iff [of "source_name_dict rec" n] by (cases "map_of (source_name_dict rec) n") auto
  then show ?thesis
    using assms(1) by (cases pv) (simp add: get_sound_data_def example_loadmat_def)
qed


lemma update_s1_bool_idem: "\<not> s1_bool self \<Longrightarrow> self\<lparr>s1_bool := False\<rparr> = self"
  by (cases self) simp

lemma generate_loop_s2_state:
  assumes "combinations_number self = 3" "\<not> 1 < num_sources self" "radius self = [1]"
    and "recovered self = PyBool rec" "\<not> s1_bool self" "set names \<subseteq> set sound_list"
  shows "generate_loop example_loadmat example_solver self names =
           (map (\<lambda>n. (n, example_points s2_mics)) names, None, self)"
  using assms(6)
proof (induction names)
  case Nil
  show ?case by simp
next
  case (Cons n names)
  then have n: "n \<in> set sound_list" and r: "set names \<subseteq> set sound_list" by simp_all
  have s: "(if n \<in> set s2_names then self\<lparr>s1_bool := False\<rparr> else self) = self"
    using update_s1_bool_idem [OF assms(5)] by simp
  have g: "get_sound_data example_loadmat self n = Inr (Some example_data)"
    using assms(4) n by (rule get_sound_data_example)
  have p: "process_potential_estimates example_solver self (Some example_data) =
      Inr (example_points s2_mics)"
    using process_example [OF assms(1,2,3)] assms(5) by simp
  show ?case
    unfolding generate_loop.simps s Let_def by (simp add: g p Cons.IH [OF r])
qed

lemma generate_loop_s2_names:
  assumes "combinations_number self = 3" "\<not> 1 < num_sources self" "radius self = [1]"
    and "recovered self = PyBool rec" "set names \<subseteq> set s2_names" "names \<noteq> []"
  shows "generate_loop example_loadmat example_solver self names =
           (map (\<lambda>n. (n, example_points s2_mics)) names, None, self\<lparr>s1_bool := False\<rparr>)"
proof -
  let ?self = "self\<lparr>s1_bool := False\<rparr>"
  obtain n rest where names: "names = n # rest" using assms(6) by (cases names) auto
  with assms(5) have n: "n \<in> set s2_names" and rest: "set rest \<subseteq> set s2_names" by simp_all
  have f: "combinations_number ?self = 3" "\<not> 1 < num_sources ?self" "radius ?self = [1]"
    "recovered ?self = PyBool rec" "\<not> s1_bool ?self"
    using assms(1-4) by simp_all
  have sl: "set s2_names \<subseteq> set sound_list" unfolding sound_list_split by simp
  have s: "(if n \<in> set s2_names then self\<lparr>s1_bool := False\<rparr> else self) = ?self"
    using n by simp
  have g: "get_sound_data example_loadmat ?self n = Inr (Some example_data)"
    using f(4) n sl by (intro get_sound_data_example) auto
  have p: "process_potential_estimates example_solver ?self (Some example_data) =
      Inr (example_points s2_mics)"
    using process_example [OF f(1,2,3)] by simp
  have l: "generate_loop example_loadmat example_solver ?self rest =
           (map (\<lambda>n. (n, example_points s2_mics)) rest, None, ?self)"
    using f rest sl by (intro generate_loop_s2_state) auto
  show ?thesis
    unfolding names generate_loop.simps s Let_def by (simp add: g p l)
qed

lemma generate_loop_s1_prefix:
  assumes "combinations_number self = 3" "\<not> 1 < num_sources self" "radius self = [1]"
    and "recovered self = PyBool rec" "s1_bool self" "set names1 \<subseteq> set s1_names"
  shows "generate_loop example_loadmat example_solver self (names1 @ names2) =
           (case generate_loop example_loadmat example_solver self names2 of
              (ys, e, self') \<Rightarrow> (map (\<lambda>n. (n, example_points s1_mics)) names1 @ ys, e, self'))"
  using assms(6)
proof (induction names1)
  case Nil
  show ?case by (simp split: prod.splits)
next
  case (Cons n names1)
  then have n: "n \<in> set s1_names" and r: "set names1 \<subseteq> set s1_names" by simp_all
  have s: "(if n \<in> set s2_names then self\<lparr>s1_bool := False\<rparr> else self) = self"
    using s1_names_not_s2 [OF n] by simp
  have "n \<in> set sound_list" using n unfolding sound_list_split by simp
  with assms(4) have g: "get_sound_data example_loadmat self n = Inr (Some example_data)"
    by (rule get_sound_data_example)
  have p: "process_potential_estimates example_solver self (Some example_data) =
      Inr (example_points s1_mics)"
    using process_example [OF assms(1,2,3)] assms(5) by simp
  show ?case
    unfolding append_Cons generate_loop.simps s Let_def
    by (simp add: g p Cons.IH [OF r] split: prod.splits)
qed


lemma hd_example_points:
  assumes "dispatch_order (mic_split_list (combinations mics 3) 4) 4 = x # xs"
  shows "hd (example_points mics) = map2 (+) center_of_room (hd (example_est x))"
proof -
  obtain p where p: "example_est x = [p]" by (simp add: example_est_def Let_def)
  show ?thesis
    unfolding example_points_def assms by (simp add: p)
qed

lemma mic_index_pools:
  "mic_index (Some ''mic1'') = Some 0" "mic_index (Some ''mic2'') = Some 1"
  "mic_index (Some ''mic3'') = Some 2" "mic_index (Some ''mic5'') = Some 4"
  "mic_index (Some ''mic6'') = Some 5"
  unfolding mic_index_def option.case mic_names_literal
  by (simp_all add: upt_conv_Cons del: upt_Suc)

lemma first_points:
  "hd (example_points s1_mics) = [267208 / 3000000, 0, 1.103886]"
  "hd (example_points s2_mics) = [267208 / 3000000, 0, 1.15875]"
proof -
  have a: "dispatch_order (mic_split_list (combinations s1_mics 3) 4) 4 =
      [''mic2'', ''mic3'', ''mic6''] # tl (dispatch_order (mic_split_list (combinations s1_mics 3) 4) 4)"
    unfolding s1_mics_literal combinations_6_3 dispatch_20 by simp
  have b: "dispatch_order (mic_split_list (combinations s2_mics 3) 4) 4 =
      [''mic1'', ''mic2'', ''mic5''] # tl (dispatch_order (mic_split_list (combinations s2_mics 3) 4) 4)"
    unfolding s2_mics_literal combinations_6_3 dispatch_20 by simp
  have e1: "example_est [''mic2'', ''mic3'', ''mic6''] = [[- 256667 / 3000000, - 0.109982, 0.983236]]"
    by (simp add: example_est_def List.map_filter_simps mic_index_pools locations_literal
        upt_conv_Cons)
  have e2: "example_est [''mic1'', ''mic2'', ''mic5''] = [[- 256667 / 3000000, - 0.109982, 1.0381]]"
    by (simp add: example_est_def List.map_filter_simps mic_index_pools locations_literal
        upt_conv_Cons)
  show "hd (example_points s1_mics) = [267208 / 3000000, 0, 1.103886]"
    unfolding hd_example_points [OF a] e1 by (simp add: center_of_room_def)
  show "hd (example_points s2_mics) = [267208 / 3000000, 0, 1.15875]"
    unfolding hd_example_points [OF b] e2 by (simp add: center_of_room_def)
qed

text \<open>
  Claim C6. Two calls of \<^verbatim>\<open>generate_potential_sources\<close> on the same object should yield
  the same pairs, with the pool chosen by the name alone. The code sets \<^verbatim>\<open>s1_bool\<close> to
  \<^verbatim>\<open>False\<close> at the first S2 name and never sets it back: the first run leaves the object
  with \<^verbatim>\<open>s1_bool = False\<close>, and a second run on it computes the S1 cycles from the S2
  pool. With the stub loader and solver, the first point yielded for \<^verbatim>\<open>S1_Cycle0\<close> differs
  between the two runs.
\<close>

theorem second_call_uses_s2_pool:
  "generate_potential_sources example_loadmat example_solver example_object =
     (map (\<lambda>n. (n, example_points s1_mics)) s1_names @
      map (\<lambda>n. (n, example_points s2_mics)) s2_names,
      None, example_object\<lparr>s1_bool := False\<rparr>)
   \<and> generate_potential_sources example_loadmat example_solver
        (example_object\<lparr>s1_bool := False\<rparr>) =
     (map (\<lambda>n. (n, example_points s2_mics)) s1_names @
      map (\<lambda>n. (n, example_points s2_mics)) s2_names,
      None, example_object\<lparr>s1_bool := False\<rparr>)
   \<and> hd s1_names = ''S1_Cycle0''
   \<and> hd (example_points s1_mics) = [267208 / 3000000, 0, 1.103886]
   \<and> hd (example_points s2_mics) = [267208 / 3000000, 0, 1.15875]"
proof -
  let ?o = "example_object\<lparr>s1_bool := False\<rparr>"
  have f: "combinations_number example_object = 3" "\<not> 1 < num_sources example_object"
    "radius example_object = [1]" "recovered example_object = PyBool False"
    "s1_bool example_object"
    by (simp_all add: example_object_def init_def)
  have f': "combinations_number ?o = 3" "\<not> 1 < num_sources ?o"
    "radius ?o = [1]" "recovered ?o = PyBool False" "\<not> s1_bool ?o"
    using f by simp_all
  have ne: "s2_names \<noteq> []" by (simp add: s2_names_def upt_conv_Cons)
  have l2: "generate_loop example_loadmat example_solver example_object s2_names =
      (map (\<lambda>n. (n, example_points s2_mics)) s2_names, None, ?o)"
    using f(1-4) _ ne by (rule generate_loop_s2_names) simp
  have r1: "generate_potential_sources example_loadmat example_solver example_object =
     (map (\<lambda>n. (n, example_points s1_mics)) s1_names @
      map (\<lambda>n. (n, example_points s2_mics)) s2_names, None, ?o)"
    unfolding generate_potential_sources_def sound_list_split
      generate_loop_s1_prefix [OF f subset_refl] l2 by simp
  have "generate_potential_sources example_loadmat example_solver ?o =
     (map (\<lambda>n. (n, example_points s2_mics)) (s1_names @ s2_names), None, ?o)"
    unfolding generate_potential_sources_def sound_list_split
    using f' by (rule generate_loop_s2_state) (simp add: sound_list_split)
  then have r2: "generate_potential_sources example_loadmat example_solver ?o =
     (map (\<lambda>n. (n, example_points s2_mics)) s1_names @
      map (\<lambda>n. (n, example_points s2_mics)) s2_names, None, ?o)"
    by simp
  have h: "hd s1_names = ''S1_Cycle0''"
  proof -
    have "str_nat 0 = ''0''" by code_simp
    then show ?thesis by (simp add: s1_names_def upt_conv_Cons)
  qed
  from r1 r2 h first_points show ?thesis by simp
qed

end
